theory Spec2Isabelle
  imports Main "HOL-Library.Sublist" "HOL-Library.Word" "HOL-Library.Char_ord"
    "HOL-Library.List_Lexorder"
begin

section \<open>Values and strings\<close>

text \<open>
  The tool is dynamically typed: the host hands it a user descriptor, user valves and a
  generation response of no declared type.  These values are modelled by \<open>pyval\<close>: the
  JSON-like values (a dict has string keys, kept in insertion order; lookup takes the first
  binding of a key) and, for valve storage of the attribute kind, a plain object that has
  named attributes and nothing else (no iteration, no subscripting, no length).
  A \<open>str\<close> is a \<open>string\<close>, one \<open>char\<close> for each code point below 256.
\<close>

datatype pyval =
    PNone
  | PBool bool
  | PInt int
  | PStr string
  | PList "pyval list"
  | PDict "(string \<times> pyval) list"
  | PObj "(string \<times> pyval) list"

text \<open>
  Exceptions are the instances of Python's \<open>Exception\<close>, the ones \<open>except Exception\<close>
  catches: a class name and a message.  Signals outside that class (a cancelled task, an
  interpreter exit) are not modelled.  Logging is left out, since no result depends on it;
  where a log line evaluates an expression that can raise, the raise is kept.
\<close>

datatype pyexn = PyExn string string

definition exn_str :: "pyexn \<Rightarrow> string" where
  "exn_str e = (case e of PyExn c m \<Rightarrow> m)"

definition startswith :: "string \<Rightarrow> string \<Rightarrow> bool" where
  "startswith s p = (take (length p) s = p)"

text \<open>Truth value of a value in a condition (\<open>if x:\<close>, \<open>not x\<close>, \<open>x and y\<close>).\<close>

fun truthy :: "pyval \<Rightarrow> bool" where
  "truthy PNone = False"
| "truthy (PBool b) = b"
| "truthy (PInt i) = (i \<noteq> 0)"
| "truthy (PStr s) = (s \<noteq> [])"
| "truthy (PList xs) = (xs \<noteq> [])"
| "truthy (PDict d) = (d \<noteq> [])"
| "truthy (PObj a) = True"

text \<open>\<open>isinstance(v, str)\<close>.\<close>

fun is_str :: "pyval \<Rightarrow> bool" where
  "is_str (PStr s) = True"
| "is_str v = False"

text \<open>\<open>isinstance(v, str) and (v.startswith("data:") or v.startswith("http"))\<close>.\<close>

fun is_uri :: "pyval \<Rightarrow> bool" where
  "is_uri (PStr s) = (startswith s ''data:'' \<or> startswith s ''http'')"
| "is_uri v = False"

text \<open>\<open>p in s\<close> for two strings: \<open>p\<close> occurs in \<open>s\<close>.\<close>

fun occurs_in :: "string \<Rightarrow> string \<Rightarrow> bool" where
  "occurs_in p [] = (p = [])"
| "occurs_in p (c # cs) = (startswith (c # cs) p \<or> occurs_in p cs)"

text \<open>
  \<open>k in v\<close> for a string \<open>k\<close>: substring test on a string, membership in a list, key test
  on a dict; any other value is not iterable and the test raises \<open>TypeError\<close>.
\<close>

fun py_contains :: "string \<Rightarrow> pyval \<Rightarrow> pyexn + bool" where
  "py_contains k (PStr s) = Inr (occurs_in k s)"
| "py_contains k (PList xs) = Inr (PStr k \<in> set xs)"
| "py_contains k (PDict d) = Inr (k \<in> set (map fst d))"
| "py_contains k v = Inl (PyExn ''TypeError'' ''argument is not iterable'')"

text \<open>\<open>v[k]\<close> for a string \<open>k\<close>: only a dict can be subscripted by a string.\<close>

fun py_getitem :: "pyval \<Rightarrow> string \<Rightarrow> pyexn + pyval" where
  "py_getitem (PDict d) k =
     (case map_of d k of Some v \<Rightarrow> Inr v | None \<Rightarrow> Inl (PyExn ''KeyError'' k))"
| "py_getitem (PStr s) k = Inl (PyExn ''TypeError'' ''string indices must be integers'')"
| "py_getitem (PList xs) k = Inl (PyExn ''TypeError'' ''list indices must be integers or slices'')"
| "py_getitem v k = Inl (PyExn ''TypeError'' ''object is not subscriptable'')"

text \<open>\<open>len(v)\<close>: defined on strings, lists and dicts.\<close>

fun py_len :: "pyval \<Rightarrow> pyexn + nat" where
  "py_len (PStr s) = Inr (length s)"
| "py_len (PList xs) = Inr (length xs)"
| "py_len (PDict d) = Inr (length (remdups (map fst d)))"
| "py_len v = Inl (PyExn ''TypeError'' ''object has no len()'')"

text \<open>\<open>str.lower()\<close> and \<open>str.strip()\<close> on code points below 256.\<close>

definition lower_char :: "char \<Rightarrow> char" where
  "lower_char c =
     (let n = (of_char c :: nat)
      in if (65 \<le> n \<and> n \<le> 90) \<or> (192 \<le> n \<and> n \<le> 222 \<and> n \<noteq> 215)
         then char_of (n + 32) else c)"

definition lower :: "string \<Rightarrow> string" where
  "lower s = map lower_char s"

definition is_space :: "char \<Rightarrow> bool" where
  "is_space c =
     (let n = (of_char c :: nat)
      in (9 \<le> n \<and> n \<le> 13) \<or> (28 \<le> n \<and> n \<le> 32) \<or> n = 133 \<or> n = 160)"

definition strip :: "string \<Rightarrow> string" where
  "strip s = rev (dropWhile is_space (rev (dropWhile is_space s)))"

text \<open>\<open>s.split(c)\<close> for a one-character separator: never empty, \<open>"".split(",") = [""]\<close>.\<close>

fun split :: "char \<Rightarrow> string \<Rightarrow> string list" where
  "split c [] = [[]]"
| "split c (x # xs) =
     (if x = c then [] # split c xs
      else (case split c xs of w # ws \<Rightarrow> (x # w) # ws | [] \<Rightarrow> [[x]]))"

text \<open>Decimal rendering of an integer in an f-string.\<close>

definition digit_char :: "nat \<Rightarrow> char" where
  "digit_char n = char_of (48 + n mod 10)"

function show_nat :: "nat \<Rightarrow> string" where
  "show_nat n = (if n < 10 then [digit_char n] else show_nat (n div 10) @ [digit_char n])"
  by pat_completeness auto
termination
  by (relation "measure (\<lambda>n. n)") auto

definition show_int :: "int \<Rightarrow> string" where
  "show_int i = (if i < 0 then CHR ''-'' # show_nat (nat (- i)) else show_nat (nat i))"

section \<open>Valves\<close>

text \<open>\<open>Tools.Valves\<close>: the administrator's settings, typed by pydantic.\<close>

datatype priority = PrioAuto | PrioDirect | PrioMarkdown | PrioHtml

record valves =
  DEBUG_ENABLED :: bool
  VERBOSE_LOGGING :: bool
  EMIT_METHOD_PRIORITY :: priority
  MAX_FILE_SIZE_MB :: int
  SUPPORTED_FORMATS :: string

definition priority_name :: "priority \<Rightarrow> string" where
  "priority_name p =
     (case p of PrioAuto \<Rightarrow> ''auto'' | PrioDirect \<Rightarrow> ''direct''
      | PrioMarkdown \<Rightarrow> ''markdown'' | PrioHtml \<Rightarrow> ''html'')"

text \<open>
  The user valves are read from \<open>__user__\<close> before any \<open>try\<close> block (lines 120-122):
  \<open>if __user__ and "valves" in __user__: user_valves = __user__["valves"]\<close>.
\<close>

definition user_valves_of :: "pyval \<Rightarrow> pyexn + pyval" where
  "user_valves_of user =
     (if truthy user then
        (case py_contains ''valves'' user of
           Inl e \<Rightarrow> Inl e
         | Inr present \<Rightarrow> if present then py_getitem user ''valves'' else Inr PNone)
      else Inr PNone)"

text \<open>
  \<open>_get_valve(uvalves, *candidates, default)\<close>.  Three passes: the keys of a dict, the
  attributes named exactly as a candidate, then the attributes compared without case.
  Only the attributes of a \<open>PObj\<close> are modelled: no built-in value has an attribute whose
  name, in any case, is one of the candidate names the tool passes.  \<open>dir\<close> lists the
  names in sorted order and the dict comprehension keeps, for each lower-cased name, the
  last one.  Reading a plain attribute does not raise, so the handler of the source's
  \<open>try\<close> is not reached.
\<close>

fun first_key :: "(string \<times> pyval) list \<Rightarrow> string list \<Rightarrow> pyval option" where
  "first_key d [] = None"
| "first_key d (k # ks) = (case map_of d k of Some v \<Rightarrow> Some v | None \<Rightarrow> first_key d ks)"

fun attributes :: "pyval \<Rightarrow> (string \<times> pyval) list" where
  "attributes (PObj a) = a"
| "attributes v = []"

definition dir_lower :: "pyval \<Rightarrow> (string \<times> string) list" where
  "dir_lower v = rev (map (\<lambda>a. (lower a, a)) (sort (remdups (map fst (attributes v)))))"

fun first_attr_nocase :: "pyval \<Rightarrow> string list \<Rightarrow> pyval option" where
  "first_attr_nocase v [] = None"
| "first_attr_nocase v (k # ks) =
     (case map_of (dir_lower v) (lower k) of
        None \<Rightarrow> first_attr_nocase v ks
      | Some ak \<Rightarrow>
          (if ak \<noteq> [] then
             (case map_of (attributes v) ak of
                Some x \<Rightarrow> Some x | None \<Rightarrow> first_attr_nocase v ks)
           else first_attr_nocase v ks))"

definition get_valve :: "pyval \<Rightarrow> string list \<Rightarrow> pyval \<Rightarrow> pyval" where
  "get_valve uvalves candidates dflt =
     (if uvalves = PNone then dflt
      else case (case uvalves of PDict d \<Rightarrow> first_key d candidates | _ \<Rightarrow> None) of
             Some v \<Rightarrow> v
           | None \<Rightarrow>
               (case first_key (attributes uvalves) candidates of
                  Some v \<Rightarrow> v
                | None \<Rightarrow>
                    (case first_attr_nocase uvalves candidates of
                       Some v \<Rightarrow> v | None \<Rightarrow> dflt)))"

section \<open>Inline base64 values\<close>

text \<open>\<open>_make_data_uri_from_b64(b64, mime="image/png")\<close>.\<close>

definition make_data_uri_from_b64 :: "string \<Rightarrow> string \<Rightarrow> string" where
  "make_data_uri_from_b64 b64 mime =
     (if startswith b64 ''data:'' then b64
      else ''data:'' @ mime @ '';base64,'' @ b64)"

section \<open>Files\<close>

text \<open>
  \<open>base64.b64encode(data).decode("utf-8")\<close> of the standard library (RFC 4648 with
  padding): three bytes give four characters of the alphabet.
\<close>

type_synonym byte = "8 word"

definition b64_alphabet :: string where
  "b64_alphabet = ''ABCDEFGHIJKLMNOPQRSTUVWXYZabcdefghijklmnopqrstuvwxyz0123456789+/''"

definition b64_char :: "nat \<Rightarrow> char" where
  "b64_char n = b64_alphabet ! (n mod 64)"

fun b64encode :: "byte list \<Rightarrow> string" where
  "b64encode [] = []"
| "b64encode [a] =
     (let x = unat a
      in [b64_char (x div 4), b64_char ((x mod 4) * 16), CHR ''='', CHR ''=''])"
| "b64encode [a, b] =
     (let x = unat a; y = unat b
      in [b64_char (x div 4), b64_char ((x mod 4) * 16 + y div 16),
          b64_char ((y mod 16) * 4), CHR ''=''])"
| "b64encode (a # b # c # rest) =
     (let x = unat a; y = unat b; z = unat c
      in [b64_char (x div 4), b64_char ((x mod 4) * 16 + y div 16),
          b64_char ((y mod 16) * 4 + z div 64), b64_char (z mod 64)] @ b64encode rest)"

text \<open>
  What the file system answers for a path: the \<open>stat\<close> behind \<open>exists()\<close>,
  \<open>is_file()\<close> and \<open>st_size\<close> raises (an error that \<open>pathlib\<close> does not swallow, such
  as a missing permission), finds nothing, or finds a node.  A regular file has the size
  \<open>stat\<close> reports and the outcome of opening and reading it whole.
\<close>

datatype fsnode =
    RegularFile nat "pyexn + byte list"
  | NotRegular

type_synonym filesystem = "string \<Rightarrow> pyexn + fsnode option"

text \<open>
  \<open>Path(path).suffix\<close> of \<open>pathlib\<close> (POSIX flavour, Python 3.8 to 3.13).  The name is the
  last component, empty and \<open>.\<close> components dropped; the suffix starts at the last dot of
  the name unless that dot is the first or the last character.
\<close>

definition path_name :: "string \<Rightarrow> string" where
  "path_name path =
     (let parts = filter (\<lambda>c. c \<noteq> [] \<and> c \<noteq> ''.'') (split CHR ''/'' path)
      in if parts = [] then [] else last parts)"

definition path_suffix :: "string \<Rightarrow> string" where
  "path_suffix path =
     (let name = path_name path;
          ext = rev (takeWhile (\<lambda>c. c \<noteq> CHR ''.'') (rev name))
      in if CHR ''.'' \<in> set name \<and> ext \<noteq> [] \<and> Suc (length ext) < length name
         then CHR ''.'' # ext else [])"

text \<open>Lines 204-207 and 222-231 of \<open>_path_to_data_uri\<close>.\<close>

definition supported_exts :: "valves \<Rightarrow> string list" where
  "supported_exts v = map (\<lambda>ext. CHR ''.'' # lower (strip ext)) (split CHR '','' (SUPPORTED_FORMATS v))"

definition mime_map :: "(string \<times> string) list" where
  "mime_map =
     [(''.jpg'', ''image/jpeg''), (''.jpeg'', ''image/jpeg''), (''.webp'', ''image/webp''),
      (''.gif'', ''image/gif''), (''.bmp'', ''image/bmp''), (''.tiff'', ''image/tiff''),
      (''.png'', ''image/png'')]"

definition detected_mime :: "string \<Rightarrow> string" where
  "detected_mime path =
     (case map_of mime_map (lower (path_suffix path)) of Some m \<Rightarrow> m | None \<Rightarrow> ''image/png'')"

section \<open>Collaborators and state\<close>

text \<open>
  The events handed to \<open>__event_emitter__\<close>.  A status description is one of the four
  messages the tool sends; an image event carries the \<open>url\<close> and the optional \<open>width\<close>,
  \<open>height\<close> and \<open>alt\<close> entries; a message event carries its \<open>content\<close>.
\<close>

datatype status_text =
    Initializing
  | Generating
  | Completed nat nat
  | ErrorStatus string

datatype event =
    StatusEvent status_text bool
  | ImageEvent pyval "int option" "int option" "string option"
  | MessageEvent string

datatype method_name = Directo | Markdown | Html

record payload =
  p_prompt :: pyval
  p_size :: string
  p_width :: int
  p_height :: int
  p_steps :: int
  p_workflow :: "string option"
  p_sampler :: "string option"
  p_seed :: "int option"

datatype form = GenerateImageForm payload | PayloadDict payload

text \<open>
  The state an invocation changes: the host setting
  \<open>__request__.app.state.config.IMAGE_STEPS\<close> (\<open>None\<close> when reading it raises, as with
  \<open>__request__ = None\<close>), and four histories: every call of the event emitter with
  whether it completed, every file opened for reading, every delivery method attempted,
  and every call of the generation collaborator with the value of the host setting at
  that moment.
\<close>

record world =
  IMAGE_STEPS :: "pyval option"
  emitted :: "(event \<times> bool) list"
  opened :: "string list"
  attempted :: "method_name list"
  generation_calls :: "(pyval option \<times> form \<times> pyval) list"

text \<open>
  What an invocation is given and does not change.  \<open>event_emitter\<close> is \<open>None\<close> for a
  missing (falsy) \<open>__event_emitter__\<close>; otherwise it tells, from the calls made so far and the
  event, whether the call completes (\<open>True\<close>) or raises.  \<open>images_module\<close> is the exception
  of \<open>from open_webui.routers.images import ...\<close>, if any; \<open>users_module\<close> is
  \<open>Users.get_user_by_id\<close>, absent when the import fails; \<open>form_accepts\<close> tells whether
  \<open>GenerateImageForm(**payload)\<close> validates.  \<open>image_generations\<close> gets the host setting,
  the form and the user, returns or raises, and leaves the host setting as it likes.
  \<open>assignable\<close> tells, from what the host setting holds and the value assigned, whether
  \<open>__request__.app.state.config.IMAGE_STEPS = value\<close> completes or raises.
  \<open>json_dumps\<close>, \<open>py_str\<close> and \<open>format_exc\<close> are \<open>json.dumps\<close>, \<open>str\<close> and
  \<open>traceback.format_exc\<close>.
\<close>

record env =
  valves :: valves
  fs :: filesystem
  event_emitter :: "((event \<times> bool) list \<Rightarrow> event \<Rightarrow> bool) option"
  images_module :: "pyexn option"
  users_module :: "(pyval \<Rightarrow> pyexn + pyval) option"
  form_accepts :: "payload \<Rightarrow> bool"
  image_generations :: "pyval option \<Rightarrow> form \<Rightarrow> pyval \<Rightarrow> (pyexn + pyval) \<times> pyval option"
  assignable :: "pyval option \<Rightarrow> pyval \<Rightarrow> bool"
  json_dumps :: "pyval \<Rightarrow> pyexn + string"
  py_str :: "pyval \<Rightarrow> string"
  format_exc :: "pyexn \<Rightarrow> string"

section \<open>Materializing a local file\<close>

text \<open>
  \<open>_path_to_data_uri(path)\<close>, lines 181-243.  Every statement is inside the \<open>try\<close>; the
  handler returns the empty string.
\<close>

definition path_to_data_uri :: "env \<Rightarrow> string \<Rightarrow> world \<Rightarrow> string \<times> world" where
  "path_to_data_uri E path w =
     (case fs E path of
        Inl e \<Rightarrow> ('''', w)
      | Inr None \<Rightarrow> ('''', w)
      | Inr (Some NotRegular) \<Rightarrow> ('''', w)
      | Inr (Some (RegularFile file_size content)) \<Rightarrow>
          (let max_size_bytes = MAX_FILE_SIZE_MB (valves E) * 1024 * 1024
           in if int file_size > max_size_bytes then ('''', w)
              else if \<not> (lower (path_suffix path) \<in> set (supported_exts (valves E)))
              then ('''', w)
              else (case content of
                      Inl e \<Rightarrow> ('''', w\<lparr>opened := opened w @ [path]\<rparr>)
                    | Inr data \<Rightarrow>
                        (''data:'' @ detected_mime path @ '';base64,'' @ b64encode data,
                         w\<lparr>opened := opened w @ [path]\<rparr>))))"

section \<open>Emitting events\<close>

text \<open>
  \<open>if __event_emitter__: await __event_emitter__(ev)\<close> inside a \<open>try\<close> whose handler
  logs: the result tells whether the call was made and completed.
\<close>

definition send_event :: "env \<Rightarrow> event \<Rightarrow> world \<Rightarrow> bool \<times> world" where
  "send_event E ev w =
     (case event_emitter E of
        None \<Rightarrow> (False, w)
      | Some emit \<Rightarrow>
          (let ok = emit (emitted w) ev
           in (ok, w\<lparr>emitted := emitted w @ [(ev, ok)]\<rparr>)))"

text \<open>\<open>_emit_status(description, done)\<close>, lines 245-263.\<close>

definition emit_status :: "env \<Rightarrow> pyval \<Rightarrow> status_text \<Rightarrow> bool \<Rightarrow> world \<Rightarrow> world" where
  "emit_status E show_status description done w =
     (if \<not> truthy show_status then w
      else snd (send_event E (StatusEvent description done) w))"

text \<open>A value placed in an f-string: a string as it is, anything else through \<open>str\<close>.\<close>

definition fmt :: "env \<Rightarrow> pyval \<Rightarrow> string" where
  "fmt E v = (case v of PStr s \<Rightarrow> s | _ \<Rightarrow> py_str E v)"

text \<open>\<open>_emit_image_direct\<close>, \<open>_emit_image_markdown\<close> and \<open>_emit_image_html\<close>, lines 265-317.\<close>

definition emit_image_direct ::
  "env \<Rightarrow> pyval \<Rightarrow> int option \<Rightarrow> int option \<Rightarrow> string \<Rightarrow> world \<Rightarrow> bool \<times> world" where
  "emit_image_direct E url_or_datauri w h alt wd =
     send_event E
       (ImageEvent url_or_datauri
          (case w of Some x \<Rightarrow> if x \<noteq> 0 \<and> x > 0 then Some x else None | None \<Rightarrow> None)
          (case h of Some y \<Rightarrow> if y \<noteq> 0 \<and> y > 0 then Some y else None | None \<Rightarrow> None)
          (if alt \<noteq> [] then Some alt else None))
       wd"

definition emit_image_markdown :: "env \<Rightarrow> pyval \<Rightarrow> string \<Rightarrow> world \<Rightarrow> bool \<times> world" where
  "emit_image_markdown E url_or_datauri alt wd =
     send_event E (MessageEvent (''!['' @ alt @ '']('' @ fmt E url_or_datauri @ '')'')) wd"

definition dq :: string where
  "dq = [CHR 0x22]"

definition or_512 :: "int option \<Rightarrow> int" where
  "or_512 x = (case x of Some v \<Rightarrow> if v \<noteq> 0 then v else 512 | None \<Rightarrow> 512)"

definition emit_image_html ::
  "env \<Rightarrow> pyval \<Rightarrow> int option \<Rightarrow> int option \<Rightarrow> string \<Rightarrow> world \<Rightarrow> bool \<times> world" where
  "emit_image_html E url_or_datauri w h alt wd =
     send_event E
       (MessageEvent
          (''<img src='' @ dq @ fmt E url_or_datauri @ dq @ '' alt='' @ dq @ alt @ dq
           @ '' style='' @ dq @ ''max-width: '' @ show_int (or_512 w) @ ''px; max-height: ''
           @ show_int (or_512 h)
           @ ''px; border-radius: 8px; box-shadow: 0 2px 8px rgba(0,0,0,0.1);'' @ dq @ ''>''))
       wd"

text \<open>
  \<open>_emit_image(url_or_datauri, w, h, alt, index)\<close>, lines 319-372.  The list of methods
  depends on \<open>EMIT_METHOD_PRIORITY\<close>; the loop stops at the first method that returns
  true.  Between the emptiness test and the loop, the automatic alternative text slices
  the prompt of the enclosing call (lines 332-333), and a log line evaluates
  \<open>len(url_or_datauri)\<close> (line 336), which raises for a value that has no length.
  Nothing in \<open>_emit_image\<close> catches these.
\<close>

definition method_order :: "priority \<Rightarrow> method_name list" where
  "method_order p =
     (if p = PrioDirect then [Directo, Markdown, Html]
      else if p = PrioMarkdown then [Markdown, Directo, Html]
      else if p = PrioHtml then [Html, Directo, Markdown]
      else [Directo, Markdown, Html])"

definition run_method ::
  "env \<Rightarrow> method_name \<Rightarrow> pyval \<Rightarrow> int option \<Rightarrow> int option \<Rightarrow> string \<Rightarrow> world \<Rightarrow> bool \<times> world" where
  "run_method E m url_or_datauri w h alt wd =
     (case m of
        Directo \<Rightarrow> emit_image_direct E url_or_datauri w h alt wd
      | Markdown \<Rightarrow> emit_image_markdown E url_or_datauri alt wd
      | Html \<Rightarrow> emit_image_html E url_or_datauri w h alt wd)"

fun try_methods ::
  "env \<Rightarrow> method_name list \<Rightarrow> pyval \<Rightarrow> int option \<Rightarrow> int option \<Rightarrow> string \<Rightarrow> world \<Rightarrow> bool \<times> world" where
  "try_methods E [] url_or_datauri w h alt wd = (False, wd)"
| "try_methods E (m # ms) url_or_datauri w h alt wd =
     (case run_method E m url_or_datauri w h alt (wd\<lparr>attempted := attempted wd @ [m]\<rparr>) of
        (ok, wd') \<Rightarrow> if ok then (True, wd') else try_methods E ms url_or_datauri w h alt wd')"

definition auto_alt :: "env \<Rightarrow> pyval \<Rightarrow> int \<Rightarrow> pyexn + string" where
  "auto_alt E prompt index =
     (case prompt of
        PStr s \<Rightarrow>
          Inr (''Imagen generada: '' @ take 50 s @ (if length s > 50 then ''...'' else [])
               @ '' - #'' @ show_int index)
      | PList xs \<Rightarrow>
          Inr (''Imagen generada: '' @ py_str E (PList (take 50 xs))
               @ (if length xs > 50 then ''...'' else []) @ '' - #'' @ show_int index)
      | _ \<Rightarrow> Inl (PyExn ''TypeError'' ''object is not subscriptable''))"

definition alt_text :: "env \<Rightarrow> pyval \<Rightarrow> pyval \<Rightarrow> string \<Rightarrow> int \<Rightarrow> pyexn + string" where
  "alt_text E prompt auto_alt_text alt index =
     (if truthy auto_alt_text \<and> alt = [] then auto_alt E prompt index else Inr alt)"

definition emit_image ::
  "env \<Rightarrow> pyval \<Rightarrow> pyval \<Rightarrow> pyval \<Rightarrow> int option \<Rightarrow> int option \<Rightarrow> string \<Rightarrow> int \<Rightarrow> world
     \<Rightarrow> (pyexn + bool) \<times> world" where
  "emit_image E prompt auto_alt_text url_or_datauri w h alt index wd =
     (if \<not> truthy url_or_datauri then (Inr False, wd)
      else
        (case alt_text E prompt auto_alt_text alt index of
           Inl e \<Rightarrow> (Inl e, wd)
         | Inr alt' \<Rightarrow>
             (case py_len url_or_datauri of
                Inl e \<Rightarrow> (Inl e, wd)
              | Inr n \<Rightarrow>
                  (case try_methods E (method_order (EMIT_METHOD_PRIORITY (valves E)))
                          url_or_datauri w h alt' wd of
                     (ok, wd') \<Rightarrow> (Inr ok, wd')))))"

section \<open>Resolving one descriptor\<close>

text \<open>
  The block that lines 514-527 and 551-560 share: \<open>Path(value)\<close> raises for a value that
  is not a string, \<open>exists()\<close> may raise, and the handler keeps the value; an existing
  regular file goes through \<open>_path_to_data_uri\<close>; anything else is kept as it is.
\<close>

definition path_or_url :: "env \<Rightarrow> pyval \<Rightarrow> world \<Rightarrow> pyval \<times> world" where
  "path_or_url E v wd =
     (case v of
        PStr s \<Rightarrow>
          (case fs E s of
             Inr (Some (RegularFile file_size content)) \<Rightarrow>
               (case path_to_data_uri E s wd of (r, wd') \<Rightarrow> (PStr r, wd'))
           | _ \<Rightarrow> (v, wd))
      | _ \<Rightarrow> (v, wd))"

definition priority_fields :: "string list" where
  "priority_fields =
     [''url'', ''b64'', ''image'', ''data'', ''base64'', ''file_path'', ''path'', ''src'',
      ''image_url'']"

text \<open>
  The loop over \<open>priority_fields\<close>, lines 505-542; \<open>processed_url\<close> starts as \<open>None\<close>.
  A field is looked at when it is a key whose value is truthy; the three branches end
  the loop, and a field that enters none of them is passed over.  In the base64 branch
  \<open>value.startswith\<close> raises for a value that is not a string.
\<close>

fun scan_fields ::
  "env \<Rightarrow> (string \<times> pyval) list \<Rightarrow> string list \<Rightarrow> world \<Rightarrow> (pyexn + pyval) \<times> world" where
  "scan_fields E it [] wd = (Inr PNone, wd)"
| "scan_fields E it (field # rest) wd =
     (case map_of it field of
        None \<Rightarrow> scan_fields E it rest wd
      | Some v \<Rightarrow>
          if \<not> truthy v then scan_fields E it rest wd
          else if field = ''url'' \<or> field \<in> set [''file_path'', ''path''] then
            (case path_or_url E v wd of (r, wd') \<Rightarrow> (Inr r, wd'))
          else if field \<in> set [''b64'', ''base64''] then
            (case v of
               PStr s \<Rightarrow> (Inr (PStr (make_data_uri_from_b64 s ''image/png'')), wd)
             | _ \<Rightarrow> (Inl (PyExn ''AttributeError'' ''object has no attribute startswith''), wd))
          else if is_uri v then (Inr v, wd)
          else scan_fields E it rest wd)"

text \<open>Lines 487-563: a dict, a string, or anything else.\<close>

definition resolve_item :: "env \<Rightarrow> pyval \<Rightarrow> world \<Rightarrow> (pyexn + pyval) \<times> world" where
  "resolve_item E it wd =
     (case it of
        PDict d \<Rightarrow>
          (case scan_fields E d priority_fields wd of
             (Inl e, wd') \<Rightarrow> (Inl e, wd')
           | (Inr processed_url, wd') \<Rightarrow>
               if \<not> truthy processed_url then
                 (case json_dumps E it of
                    Inl e \<Rightarrow> (Inl e, wd')
                  | Inr s \<Rightarrow> (Inr (PStr s), wd'))
               else (Inr processed_url, wd'))
      | PStr s \<Rightarrow> (case path_or_url E it wd of (r, wd') \<Rightarrow> (Inr r, wd'))
      | _ \<Rightarrow> (Inr (PStr (py_str E it)), wd))"

section \<open>The entry point\<close>

text \<open>
  The arguments of \<open>generate_image\<close>.  \<open>__user__\<close> has no declared type, and
  \<open>prompt\<close> is used before any \<open>try\<close>, so both are arbitrary values; the numeric and
  the optional arguments are only formatted or passed on and keep their declared types.
  \<open>__request__\<close> is present through the host setting of the \<open>world\<close>,
  \<open>__event_emitter__\<close> through the \<open>env\<close>.
\<close>

record args =
  prompt :: pyval
  width :: int
  height :: int
  steps :: int
  workflow :: "string option"
  sampler :: "string option"
  seed :: "int option"
  user :: pyval

text \<open>
  The two dicts that \<open>generate_image\<close> returns; \<open>method_key\<close> is the entry \<open>"method"\<close>.
\<close>

datatype result =
    Success (images: "pyval list") (images_emitted: nat) (total_processed: nat)
      (raw: pyval) (method_key: string) (valves_config: "(string \<times> pyval) list")
  | Failure (error: string) (internal_trace: string) (valves_config: "(string \<times> pyval) list")

definition success :: "result \<Rightarrow> bool" where
  "success r = (case r of Success i n t rw m c \<Rightarrow> True | Failure e t c \<Rightarrow> False)"

text \<open>Lines 390-402: the keys \<open>workflow\<close> and \<open>sampler\<close> are set for a non-empty string.\<close>

definition build_payload :: "args \<Rightarrow> payload" where
  "build_payload a =
     \<lparr> p_prompt = prompt a,
       p_size = show_int (width a) @ ''x'' @ show_int (height a),
       p_width = width a,
       p_height = height a,
       p_steps = steps a,
       p_workflow = (case workflow a of Some s \<Rightarrow> if s \<noteq> [] then Some s else None | None \<Rightarrow> None),
       p_sampler = (case sampler a of Some s \<Rightarrow> if s \<noteq> [] then Some s else None | None \<Rightarrow> None),
       p_seed = seed a \<rparr>"

text \<open>
  Lines 432-441: \<open>Users.get_user_by_id(__user__.get("id"))\<close> inside a \<open>try\<close> whose
  handler leaves \<open>user_obj = None\<close>.  Only a dict has a callable \<open>get\<close>.
\<close>

definition lookup_user :: "env \<Rightarrow> pyval \<Rightarrow> pyval" where
  "lookup_user E u =
     (case users_module E of
        None \<Rightarrow> PNone
      | Some get_user_by_id \<Rightarrow>
          if truthy u then
            (case u of
               PDict d \<Rightarrow>
                 (case get_user_by_id (case map_of d ''id'' of Some i \<Rightarrow> i | None \<Rightarrow> PNone) of
                    Inl e \<Rightarrow> PNone
                  | Inr user_obj \<Rightarrow> user_obj)
             | _ \<Rightarrow> PNone)
          else PNone)"

text \<open>Lines 470-476.\<close>

definition raw_items :: "pyval \<Rightarrow> pyval list" where
  "raw_items imgs = (case imgs of PNone \<Rightarrow> [] | PList xs \<Rightarrow> xs | _ \<Rightarrow> [imgs])"

text \<open>The loop of lines 480-569; an exception leaves the loop and the \<open>try\<close>.\<close>

fun process_items ::
  "env \<Rightarrow> pyval list \<Rightarrow> pyval list \<Rightarrow> world \<Rightarrow> (pyexn + pyval list) \<times> world" where
  "process_items E [] images_out wd = (Inr images_out, wd)"
| "process_items E (it # rest) images_out wd =
     (case resolve_item E it wd of
        (Inl e, wd') \<Rightarrow> (Inl e, wd')
      | (Inr processed_url, wd') \<Rightarrow>
          process_items E rest
            (if truthy processed_url then images_out @ [processed_url] else images_out) wd')"

text \<open>
  The loop of lines 575-589 over \<open>enumerate(images_out)\<close>: \<open>idx\<close> counts the images
  done, \<open>success_count\<close> those that were emitted.
\<close>

fun emit_all ::
  "env \<Rightarrow> args \<Rightarrow> pyval \<Rightarrow> pyval list \<Rightarrow> nat \<Rightarrow> nat \<Rightarrow> world \<Rightarrow> (pyexn + nat) \<times> world" where
  "emit_all E a auto_alt_text [] idx success_count wd = (Inr success_count, wd)"
| "emit_all E a auto_alt_text (url # rest) idx success_count wd =
     (case emit_image E (prompt a) auto_alt_text url (Some (width a)) (Some (height a))
             (''imagen_generada_'' @ show_nat (idx + 1)) (int idx + 1) wd of
        (Inl e, wd') \<Rightarrow> (Inl e, wd')
      | (Inr ok, wd') \<Rightarrow>
          emit_all E a auto_alt_text rest (idx + 1)
            (if ok then success_count + 1 else success_count) wd')"

text \<open>
  Lines 378-386 and 638-645.  \<open>original_steps\<close> starts as \<open>None\<close>.  The read and the
  overriding assignment share one \<open>try\<close>: when the read raises nothing is assigned;
  when the assignment raises the value read stays in \<open>original_steps\<close> and the setting
  is not overridden.  The restoring assignment has its own \<open>try\<close>: when it raises the
  setting keeps what it holds.
\<close>

definition override_steps :: "env \<Rightarrow> int \<Rightarrow> world \<Rightarrow> pyval \<times> world" where
  "override_steps E n wd =
     (case IMAGE_STEPS wd of
        None \<Rightarrow> (PNone, wd)
      | Some original_steps \<Rightarrow>
          if assignable E (IMAGE_STEPS wd) (PInt n)
          then (original_steps, wd\<lparr>IMAGE_STEPS := Some (PInt n)\<rparr>)
          else (original_steps, wd))"

definition restore_steps :: "env \<Rightarrow> pyval \<Rightarrow> world \<Rightarrow> world" where
  "restore_steps E original_steps wd =
     (if original_steps \<noteq> PNone then
        (if assignable E (IMAGE_STEPS wd) original_steps
         then wd\<lparr>IMAGE_STEPS := Some original_steps\<rparr>
         else wd)
      else wd)"

text \<open>
  The body of the outer \<open>try\<close>, lines 388-614, in two parts: up to the call of the
  collaborator, and from its answer to the \<open>return\<close>.  \<open>Inl\<close> is an exception on its way
  to the handler of line 616, with the state at the moment it was raised.
\<close>

definition success_result :: "env \<Rightarrow> pyval \<Rightarrow> pyval \<Rightarrow> pyval \<Rightarrow> pyval list \<Rightarrow> nat \<Rightarrow> result" where
  "success_result E show_status auto_alt_text imgs images_out success_count =
     Success images_out success_count (length images_out)
       (if VERBOSE_LOGGING (valves E) then imgs
        else PStr ''Oculto - activa VERBOSE_LOGGING para ver'')
       ''internal''
       [(''debug'', PBool (DEBUG_ENABLED (valves E))),
        (''verbose'', PBool (VERBOSE_LOGGING (valves E))),
        (''emit_method'', PStr (priority_name (EMIT_METHOD_PRIORITY (valves E)))),
        (''user_show_status'', show_status),
        (''user_auto_alt'', auto_alt_text)]"

definition handle_response ::
  "env \<Rightarrow> args \<Rightarrow> pyval \<Rightarrow> pyval \<Rightarrow> pyval \<Rightarrow> world \<Rightarrow> (pyexn + result) \<times> world" where
  "handle_response E a show_status auto_alt_text imgs wd =
     (case process_items E (raw_items imgs) [] wd of
        (Inl e, wd') \<Rightarrow> (Inl e, wd')
      | (Inr images_out, wd') \<Rightarrow>
          (case emit_all E a auto_alt_text images_out 0 0 wd' of
             (Inl e, wd'') \<Rightarrow> (Inl e, wd'')
           | (Inr success_count, wd'') \<Rightarrow>
               (Inr (success_result E show_status auto_alt_text imgs images_out success_count),
                emit_status E show_status (Completed success_count (length images_out)) True
                  wd'')))"

definition call_generation :: "env \<Rightarrow> args \<Rightarrow> pyval \<Rightarrow> world \<Rightarrow> (pyexn + pyval) \<times> world" where
  "call_generation E a show_status wd =
     (let pl = build_payload a;
          frm = (if form_accepts E pl then GenerateImageForm pl else PayloadDict pl);
          user_obj = lookup_user E (user a);
          wd' = emit_status E show_status Generating False wd;
          called = image_generations E (IMAGE_STEPS wd') frm user_obj
      in (fst called,
          wd'\<lparr>IMAGE_STEPS := snd called,
               generation_calls := generation_calls wd' @ [(IMAGE_STEPS wd', frm, user_obj)]\<rparr>))"

definition try_body :: "env \<Rightarrow> args \<Rightarrow> pyval \<Rightarrow> pyval \<Rightarrow> world \<Rightarrow> (pyexn + result) \<times> world" where
  "try_body E a show_status auto_alt_text wd =
     (case images_module E of
        Some e \<Rightarrow> (Inl e, wd)
      | None \<Rightarrow>
          (case call_generation E a show_status wd of
             (Inl e, wd') \<Rightarrow> (Inl e, wd')
           | (Inr imgs, wd') \<Rightarrow> handle_response E a show_status auto_alt_text imgs wd'))"

text \<open>The handler of lines 616-636.\<close>

definition on_exception :: "env \<Rightarrow> pyval \<Rightarrow> pyexn \<Rightarrow> world \<Rightarrow> result \<times> world" where
  "on_exception E show_status e wd =
     (Failure (''Error interno: '' @ exn_str e)
        (if DEBUG_ENABLED (valves E) then format_exc E e
         else ''Activa DEBUG_ENABLED en Valves para detalles'')
        [(''debug'', PBool (DEBUG_ENABLED (valves E))),
         (''verbose'', PBool (VERBOSE_LOGGING (valves E)))],
      emit_status E show_status (ErrorStatus (exn_str e)) True wd)"

text \<open>The outer \<open>try\<close> with its handler: a result in either case.\<close>

definition try_except :: "env \<Rightarrow> args \<Rightarrow> pyval \<Rightarrow> pyval \<Rightarrow> world \<Rightarrow> result \<times> world" where
  "try_except E a show_status auto_alt_text wd =
     (case try_body E a show_status auto_alt_text wd of
        (Inr r, wd') \<Rightarrow> (r, wd')
      | (Inl e, wd') \<Rightarrow> on_exception E show_status e wd')"

text \<open>Lines 149-158: the two user valves, each under three spellings, default \<open>True\<close>.\<close>

definition read_show_status :: "pyval \<Rightarrow> pyval" where
  "read_show_status user_valves =
     get_valve user_valves
       [''SHOW_PROCESSING_STATUS'', ''show_processing_status'', ''showProcessingStatus'']
       (PBool True)"

definition read_auto_alt_text :: "pyval \<Rightarrow> pyval" where
  "read_auto_alt_text user_valves =
     get_valve user_valves [''AUTO_ALT_TEXT'', ''auto_alt_text'', ''autoAltText''] (PBool True)"

text \<open>
  Line 167: the log line \<open>f"Prompt: {prompt[:100]}{'...' if len(prompt) > 100 else ''}"\<close>
  is evaluated whether or not logging is enabled, before the first \<open>try\<close>.  A string
  or a list can be sliced and measured; any other value raises.
\<close>

fun log_prompt :: "pyval \<Rightarrow> pyexn + unit" where
  "log_prompt (PStr s) = Inr ()"
| "log_prompt (PList xs) = Inr ()"
| "log_prompt v = Inl (PyExn ''TypeError'' ''object is not subscriptable'')"

text \<open>
  \<open>generate_image\<close>.  \<open>Inl\<close> is an exception that leaves the call.  The user valves are
  read and the prompt is logged first, outside every \<open>try\<close>; then the first status, the
  override of the host setting, the body with its handler, and the \<open>finally\<close> clause.
\<close>

definition generate_image :: "env \<Rightarrow> args \<Rightarrow> world \<Rightarrow> (pyexn + result) \<times> world" where
  "generate_image E a wd =
     (case user_valves_of (user a) of
        Inl e \<Rightarrow> (Inl e, wd)
      | Inr user_valves \<Rightarrow>
          (case log_prompt (prompt a) of
             Inl e \<Rightarrow> (Inl e, wd)
           | Inr logged \<Rightarrow>
               (let show_status = read_show_status user_valves;
                    auto_alt_text = read_auto_alt_text user_valves;
                    wd1 = emit_status E show_status Initializing False wd;
                    saved = override_steps E (steps a) wd1;
                    handled = try_except E a show_status auto_alt_text (snd saved)
                in (Inr (fst handled), restore_steps E (fst saved) (snd handled)))))"

section \<open>Notions used in the statements\<close>

text \<open>Every call of the emitter in the list raised.\<close>

definition all_raised :: "(event \<times> bool) list \<Rightarrow> bool" where
  "all_raised calls = list_all (\<lambda>c. \<not> snd c) calls"

text \<open>
  The words of the claims about the resolver.  A field is \<open>present\<close> in a mapping when it
  is a key with a truthy (non-empty) value.  It is \<open>usable\<close> when, besides, it is one of
  the path fields or the base64 fields, or its value is a string that starts with
  \<open>data:\<close> or \<open>http\<close>.  \<open>from_field\<close> is the image that a field name and its value give,
  whatever else the mapping holds; \<open>json_fallback\<close> is the serialized mapping.
\<close>

definition present :: "(string \<times> pyval) list \<Rightarrow> string \<Rightarrow> bool" where
  "present d f = (case map_of d f of Some v \<Rightarrow> truthy v | None \<Rightarrow> False)"

definition path_fields :: "string list" where
  "path_fields = [''url'', ''file_path'', ''path'']"

definition b64_fields :: "string list" where
  "b64_fields = [''b64'', ''base64'']"

definition usable :: "(string \<times> pyval) list \<Rightarrow> string \<Rightarrow> bool" where
  "usable d f =
     (case map_of d f of
        Some v \<Rightarrow> truthy v \<and> (f \<in> set path_fields \<or> f \<in> set b64_fields \<or> is_uri v)
      | None \<Rightarrow> False)"

definition from_field :: "env \<Rightarrow> string \<Rightarrow> pyval \<Rightarrow> world \<Rightarrow> (pyexn + pyval) \<times> world" where
  "from_field E f v wd =
     (if f \<in> set path_fields then (Inr (fst (path_or_url E v wd)), snd (path_or_url E v wd))
      else if f \<in> set b64_fields then
        (case v of
           PStr s \<Rightarrow> (Inr (PStr (make_data_uri_from_b64 s ''image/png'')), wd)
         | _ \<Rightarrow> (Inl (PyExn ''AttributeError'' ''object has no attribute startswith''), wd))
      else (Inr v, wd))"

definition json_fallback :: "env \<Rightarrow> (string \<times> pyval) list \<Rightarrow> world \<Rightarrow> (pyexn + pyval) \<times> world" where
  "json_fallback E d wd =
     (case json_dumps E (PDict d) of Inl e \<Rightarrow> (Inl e, wd) | Inr s \<Rightarrow> (Inr (PStr s), wd))"

text \<open>
  A descriptor is \<open>string_valued\<close> when it is not a mapping, or a mapping whose path
  fields hold nothing truthy but strings.  \<open>entry_state\<close> is the state in which the outer
  \<open>try\<close> starts: the first status sent and the host setting overridden.
\<close>

definition string_valued :: "pyval \<Rightarrow> bool" where
  "string_valued it =
     (case it of
        PDict d \<Rightarrow>
          (\<forall>f \<in> set path_fields.
             case map_of d f of Some v \<Rightarrow> truthy v \<longrightarrow> is_str v | None \<Rightarrow> True)
      | _ \<Rightarrow> True)"

definition entry_state :: "env \<Rightarrow> args \<Rightarrow> pyval \<Rightarrow> world \<Rightarrow> world" where
  "entry_state E a user_valves wd =
     snd (override_steps E (steps a)
            (emit_status E (read_show_status user_valves) Initializing False wd))"



text \<open>
  \<open>entry_check\<close> is what the statements before the first \<open>try\<close> give (lines 120-171): the
  user valves, or the exception raised while \<open>__user__\<close> is read or the prompt is logged.
\<close>

definition entry_check :: "args \<Rightarrow> pyexn + pyval" where
  "entry_check a =
     (case user_valves_of (user a) of
        Inl e \<Rightarrow> Inl e
      | Inr user_valves \<Rightarrow>
          (case log_prompt (prompt a) of Inl e \<Rightarrow> Inl e | Inr logged \<Rightarrow> Inr user_valves))"

section \<open>Example hosts\<close>

text \<open>
  The defaults of \<open>Tools.Valves\<close> (lines 23-42), and a host for the worked examples: a file
  system given as a table, an emitter, a collaborator that answers with a fixed value and
  leaves the host setting alone, a host setting that accepts every assignment, no
  \<open>Users\<close> module, and \<open>json.dumps\<close>/\<open>str\<close> given by
  tables of the values an example serializes.
\<close>

definition default_valves :: valves where
  "default_valves =
     \<lparr> DEBUG_ENABLED = False, VERBOSE_LOGGING = False, EMIT_METHOD_PRIORITY = PrioAuto,
       MAX_FILE_SIZE_MB = 10, SUPPORTED_FORMATS = ''png,jpg,jpeg,webp,gif,bmp,tiff'' \<rparr>"

definition table_fs :: "(string \<times> fsnode) list \<Rightarrow> filesystem" where
  "table_fs t path = Inr (map_of t path)"

definition table_dumps :: "(pyval \<times> string) list \<Rightarrow> pyval \<Rightarrow> pyexn + string" where
  "table_dumps t v =
     (case map_of t v of
        Some s \<Rightarrow> Inr s
      | None \<Rightarrow> Inl (PyExn ''TypeError'' ''Object is not JSON serializable''))"

definition table_str :: "(pyval \<times> string) list \<Rightarrow> pyval \<Rightarrow> string" where
  "table_str t v = (case map_of t v of Some s \<Rightarrow> s | None \<Rightarrow> ''<object>'')"

definition example_env ::
  "valves \<Rightarrow> (string \<times> fsnode) list \<Rightarrow> ((event \<times> bool) list \<Rightarrow> event \<Rightarrow> bool) option
     \<Rightarrow> (pyexn + pyval) \<Rightarrow> (pyval \<times> string) list \<Rightarrow> env" where
  "example_env v files emitter response dumps =
     \<lparr> valves = v, fs = table_fs files, event_emitter = emitter, images_module = None,
       users_module = None, form_accepts = (\<lambda>pl. True),
       image_generations = (\<lambda>current frm u. (response, current)),
       assignable = (\<lambda>current v. True),
       json_dumps = table_dumps dumps, py_str = table_str [],
       format_exc = (\<lambda>e. ''Traceback (most recent call last): '' @ exn_str e) \<rparr>"

definition example_args :: "pyval \<Rightarrow> args" where
  "example_args u =
     \<lparr> prompt = PStr ''a red cat'', width = 512, height = 512, steps = 15, workflow = None,
       sampler = None, seed = None, user = u \<rparr>"

definition example_world :: "pyval option \<Rightarrow> world" where
  "example_world current =
     \<lparr> IMAGE_STEPS = current, emitted = [], opened = [], attempted = [],
       generation_calls = [] \<rparr>"


section \<open>Properties\<close>

lemmas example_defs =
  example_env_def example_args_def example_world_def default_valves_def table_fs_def
  table_dumps_def table_str_def

lemmas string_defs =
  startswith_def lower_def lower_char_def strip_def is_space_def path_suffix_def path_name_def
  supported_exts_def

subsection \<open>Inline base64 values\<close>

lemma startswith_prefix: "startswith s p = prefix p s"
  by (auto simp: startswith_def prefix_def) (metis append_eq_conv_conj)

text \<open>
  C7.  A string taken from a \<open>b64\<close>/\<open>base64\<close> field is returned unchanged when it already
  starts with \<open>data:\<close>; otherwise the result is \<open>data:image/png;base64,\<close> followed by
  exactly the value.  Hence the result always starts with \<open>data:\<close>, the value is a suffix
  of it, and converting a result again changes nothing.
\<close>

theorem C7_make_data_uri_from_b64:
  "(startswith v ''data:'' \<longrightarrow> make_data_uri_from_b64 v ''image/png'' = v)
   \<and> (\<not> startswith v ''data:'' \<longrightarrow>
        make_data_uri_from_b64 v ''image/png'' = ''data:image/png;base64,'' @ v)
   \<and> prefix ''data:'' (make_data_uri_from_b64 v ''image/png'')
   \<and> suffix v (make_data_uri_from_b64 v ''image/png'')
   \<and> make_data_uri_from_b64 (make_data_uri_from_b64 v ''image/png'') ''image/png''
       = make_data_uri_from_b64 v ''image/png''"
  by (auto simp: make_data_uri_from_b64_def startswith_prefix suffix_def)

theorem C7_make_data_uri_from_b64_witness:
  "startswith ''data:image/gif;base64,R0lG'' ''data:''
   \<and> make_data_uri_from_b64 ''data:image/gif;base64,R0lG'' ''image/png'' = ''data:image/gif;base64,R0lG''
   \<and> \<not> startswith ''QUJD'' ''data:''
   \<and> make_data_uri_from_b64 ''QUJD'' ''image/png'' = ''data:image/png;base64,QUJD''"
  using C7_make_data_uri_from_b64 [of "''data:image/gif;base64,R0lG''"]
        C7_make_data_uri_from_b64 [of "''QUJD''"]
  by (simp add: startswith_def)

subsection \<open>The base64 encoding\<close>

lemma b64encode_length: "length (b64encode data) = 4 * ((length data + 2) div 3)"
proof (induction data rule: b64encode.induct)
  case (4 a b c rest)
  have "(length rest + 5) div 3 = Suc ((length rest + 2) div 3)"
    by presburger
  with 4 show ?case
    by (simp add: Let_def add.commute)
qed (simp_all add: Let_def)

lemma b64encode_rfc4648_vectors:
  "b64encode [102] = ''Zg=='' \<and> b64encode [102, 111] = ''Zm8=''
   \<and> b64encode [102, 111, 111] = ''Zm9v'' \<and> b64encode [102, 111, 111, 98] = ''Zm9vYg==''"
  by (simp add: b64_char_def b64_alphabet_def)

subsection \<open>The materializer\<close>

text \<open>
  C5 (as amended).  \<open>_path_to_data_uri\<close> returns a string for every path, so it never
  raises.  The string is empty exactly when examining the path raises, the path does not
  exist, it is not a regular file, its size exceeds \<open>MAX_FILE_SIZE_MB * 1024 * 1024\<close>
  bytes, its extension in lower case is not one of the configured formats, or opening
  and reading the file raises.  When the size exceeds the limit the file is not opened.
\<close>

theorem C5_path_to_data_uri_empty:
  "(fst (path_to_data_uri E path w) = [] \<longleftrightarrow>
      (\<exists>e. fs E path = Inl e)
      \<or> fs E path = Inr None
      \<or> fs E path = Inr (Some NotRegular)
      \<or> (\<exists>file_size content. fs E path = Inr (Some (RegularFile file_size content))
            \<and> (int file_size > MAX_FILE_SIZE_MB (valves E) * 1024 * 1024
                 \<or> lower (path_suffix path) \<notin> set (supported_exts (valves E))
                 \<or> (\<exists>e. content = Inl e))))
   \<and> (\<forall>file_size content. fs E path = Inr (Some (RegularFile file_size content))
          \<and> int file_size > MAX_FILE_SIZE_MB (valves E) * 1024 * 1024
        \<longrightarrow> opened (snd (path_to_data_uri E path w)) = opened w)"
  by (auto simp: path_to_data_uri_def Let_def split: sum.splits option.splits fsnode.splits)

theorem C5_path_to_data_uri_empty_witness:
  "fs (example_env default_valves [(''/tmp/big.png'', RegularFile 10485761 (Inr []))] None
         (Inr PNone) []) ''/tmp/big.png''
     = Inr (Some (RegularFile 10485761 (Inr [])))
   \<and> int 10485761 > MAX_FILE_SIZE_MB default_valves * 1024 * 1024
   \<and> path_to_data_uri
        (example_env default_valves [(''/tmp/big.png'', RegularFile 10485761 (Inr []))] None
           (Inr PNone) [])
        ''/tmp/big.png'' (example_world None)
      = ('''', example_world None)"
proof -
  let ?E = "example_env default_valves [(''/tmp/big.png'', RegularFile 10485761 (Inr []))] None
              (Inr PNone) []"
  have regular: "fs ?E ''/tmp/big.png'' = Inr (Some (RegularFile 10485761 (Inr [])))"
    by (simp add: example_defs)
  have big: "int 10485761 > MAX_FILE_SIZE_MB (valves ?E) * 1024 * 1024"
    by (simp add: example_defs)
  from C5_path_to_data_uri_empty [of ?E "''/tmp/big.png''" "example_world None"] regular big
  have "fst (path_to_data_uri ?E ''/tmp/big.png'' (example_world None)) = []"
    and "opened (snd (path_to_data_uri ?E ''/tmp/big.png'' (example_world None)))
           = opened (example_world None)"
    by blast+
  moreover have "snd (path_to_data_uri ?E ''/tmp/big.png'' (example_world None))
                   = example_world None"
    by (simp add: path_to_data_uri_def example_defs)
  ultimately show ?thesis
    using regular big by (simp add: prod_eq_iff example_defs)
qed

text \<open>
  The claim as first stated names four causes only.  A regular file of three bytes with a
  supported extension that cannot be opened also gives the empty string.
\<close>

theorem C5_unreadable_file_counterexample:
  "fs (example_env default_valves
         [(''/tmp/locked.png'',
           RegularFile 3 (Inl (PyExn ''PermissionError'' ''Permission denied'')))]
         None (Inr PNone) []) ''/tmp/locked.png''
     = Inr (Some (RegularFile 3 (Inl (PyExn ''PermissionError'' ''Permission denied''))))
   \<and> \<not> int 3 > MAX_FILE_SIZE_MB default_valves * 1024 * 1024
   \<and> lower (path_suffix ''/tmp/locked.png'') \<in> set (supported_exts default_valves)
   \<and> fst (path_to_data_uri
             (example_env default_valves
                [(''/tmp/locked.png'',
                  RegularFile 3 (Inl (PyExn ''PermissionError'' ''Permission denied'')))]
                None (Inr PNone) [])
             ''/tmp/locked.png'' (example_world None)) = []"
  by (simp add: path_to_data_uri_def example_defs string_defs)

text \<open>
  C6 (as amended).  For a regular file that passes the size and the extension check and
  whose content can be opened and read, giving the bytes \<open>data\<close>, the result is
  \<open>data:<mime>;base64,<payload>\<close>: the payload is the base64 encoding of \<open>data\<close>, the
  MIME type comes from the table, and an extension that is not in the table gives
  \<open>image/png\<close>.
\<close>

theorem C6_path_to_data_uri_success:
  assumes "fs E path = Inr (Some (RegularFile file_size (Inr data)))"
    and "int file_size \<le> MAX_FILE_SIZE_MB (valves E) * 1024 * 1024"
    and "lower (path_suffix path) \<in> set (supported_exts (valves E))"
  shows "fst (path_to_data_uri E path w)
           = ''data:'' @ detected_mime path @ '';base64,'' @ b64encode data
         \<and> detected_mime path =
             (let ext = lower (path_suffix path)
              in if ext = ''.jpg'' \<or> ext = ''.jpeg'' then ''image/jpeg''
                 else if ext = ''.png'' then ''image/png''
                 else if ext = ''.webp'' then ''image/webp''
                 else if ext = ''.gif'' then ''image/gif''
                 else if ext = ''.bmp'' then ''image/bmp''
                 else if ext = ''.tiff'' then ''image/tiff''
                 else ''image/png'')"
  using assms
  by (simp add: path_to_data_uri_def Let_def detected_mime_def mime_map_def)

theorem C6_path_to_data_uri_success_witness:
  "fst (path_to_data_uri
          (example_env default_valves [(''/tmp/cat.JPG'', RegularFile 4 (Inr [65, 66, 67, 68]))]
             None (Inr PNone) [])
          ''/tmp/cat.JPG'' (example_world None))
     = ''data:image/jpeg;base64,QUJDRA==''"
proof -
  let ?E = "example_env default_valves [(''/tmp/cat.JPG'', RegularFile 4 (Inr [65, 66, 67, 68]))]
              None (Inr PNone) []"
  have regular: "fs ?E ''/tmp/cat.JPG'' = Inr (Some (RegularFile 4 (Inr [65, 66, 67, 68])))"
    by (simp add: example_defs)
  have small: "int 4 \<le> MAX_FILE_SIZE_MB (valves ?E) * 1024 * 1024"
    by (simp add: example_defs)
  have ext: "lower (path_suffix ''/tmp/cat.JPG'') = ''.jpg''"
    by code_simp
  have supported: "lower (path_suffix ''/tmp/cat.JPG'') \<in> set (supported_exts (valves ?E))"
    unfolding ext by (simp add: example_defs string_defs)
  from C6_path_to_data_uri_success [OF regular small supported, of "example_world None"]
  show ?thesis
    by (simp add: ext b64_char_def b64_alphabet_def)
qed

text \<open>
  The claim as first stated covers every existing regular file that passes the two
  checks.  A JPEG of four bytes whose \<open>open\<close> raises passes both, and the result is the
  empty string, which is no data URI.
\<close>

theorem C6_unreadable_jpeg_counterexample:
  "fs (example_env default_valves
         [(''/srv/private/cat.jpg'',
           RegularFile 4 (Inl (PyExn ''PermissionError'' ''Permission denied'')))]
         None (Inr PNone) []) ''/srv/private/cat.jpg''
     = Inr (Some (RegularFile 4 (Inl (PyExn ''PermissionError'' ''Permission denied''))))
   \<and> int 4 \<le> MAX_FILE_SIZE_MB default_valves * 1024 * 1024
   \<and> lower (path_suffix ''/srv/private/cat.jpg'') \<in> set (supported_exts default_valves)
   \<and> fst (path_to_data_uri
             (example_env default_valves
                [(''/srv/private/cat.jpg'',
                  RegularFile 4 (Inl (PyExn ''PermissionError'' ''Permission denied'')))]
                None (Inr PNone) [])
             ''/srv/private/cat.jpg'' (example_world None)) = []
   \<and> \<not> prefix ''data:''
         (fst (path_to_data_uri
                 (example_env default_valves
                    [(''/srv/private/cat.jpg'',
                      RegularFile 4 (Inl (PyExn ''PermissionError'' ''Permission denied'')))]
                    None (Inr PNone) [])
                 ''/srv/private/cat.jpg'' (example_world None)))"
  by (simp add: path_to_data_uri_def example_defs string_defs)

subsection \<open>The dispatcher\<close>

lemma send_event_cases:
  assumes "send_event E ev wd = (ok, wd')"
  shows "(event_emitter E = None \<and> \<not> ok \<and> wd' = wd)
         \<or> (event_emitter E \<noteq> None \<and> wd' = wd\<lparr>emitted := emitted wd @ [(ev, ok)]\<rparr>)"
  using assms by (auto simp: send_event_def Let_def split: option.splits)

lemma run_method_cases:
  assumes "run_method E m u w h alt wd = (ok, wd')"
  shows "(event_emitter E = None \<and> \<not> ok \<and> wd' = wd)
         \<or> (\<exists>ev. event_emitter E \<noteq> None \<and> wd' = wd\<lparr>emitted := emitted wd @ [(ev, ok)]\<rparr>)"
proof (cases m)
  case Directo
  with assms show ?thesis
    by (auto simp: run_method_def emit_image_direct_def dest!: send_event_cases)
next
  case Markdown
  with assms show ?thesis
    by (auto simp: run_method_def emit_image_markdown_def dest!: send_event_cases)
next
  case Html
  with assms show ?thesis
    by (auto simp: run_method_def emit_image_html_def dest!: send_event_cases)
qed

lemma try_methods_trace:
  assumes "try_methods E ms u w h alt wd = (ok, wd')"
  shows "\<exists>k new. k \<le> length ms
           \<and> wd' = wd\<lparr>emitted := emitted wd @ new, attempted := attempted wd @ take k ms\<rparr>
           \<and> all_raised (butlast new)
           \<and> (ok \<longleftrightarrow> new \<noteq> [] \<and> snd (last new))
           \<and> (ok \<longrightarrow> 0 < k)
           \<and> (\<not> ok \<longrightarrow> k = length ms)
           \<and> (event_emitter E \<noteq> None \<longrightarrow> length new = k)"
  using assms
proof (induction ms arbitrary: wd)
  case Nil
  then show ?case
    by (intro exI [of _ 0] exI [of _ "[]"]) (auto simp: all_raised_def)
next
  case (Cons m ms)
  let ?wd1 = "wd\<lparr>attempted := attempted wd @ [m]\<rparr>"
  obtain ok1 wd2 where step: "run_method E m u w h alt ?wd1 = (ok1, wd2)"
    by (cases "run_method E m u w h alt ?wd1") auto
  have "\<exists>new1. wd2 = ?wd1\<lparr>emitted := emitted ?wd1 @ new1\<rparr>
           \<and> (new1 = [] \<or> (\<exists>ev. new1 = [(ev, ok1)]))
           \<and> (event_emitter E \<noteq> None \<longrightarrow> length new1 = 1)
           \<and> (ok1 \<longrightarrow> new1 \<noteq> [])"
  proof (cases "event_emitter E = None")
    case True
    with run_method_cases [OF step] show ?thesis
      by (intro exI [of _ "[]"]) auto
  next
    case False
    with run_method_cases [OF step] obtain ev
      where "wd2 = ?wd1\<lparr>emitted := emitted ?wd1 @ [(ev, ok1)]\<rparr>" by auto
    with False show ?thesis
      by (intro exI [of _ "[(ev, ok1)]"]) auto
  qed
  then obtain new1 where new1:
      "wd2 = ?wd1\<lparr>emitted := emitted ?wd1 @ new1\<rparr>"
      "new1 = [] \<or> (\<exists>ev. new1 = [(ev, ok1)])"
      "event_emitter E \<noteq> None \<longrightarrow> length new1 = 1"
      "ok1 \<longrightarrow> new1 \<noteq> []"
    by blast
  show ?case
  proof (cases ok1)
    case True
    with Cons.prems step have "ok" "wd' = wd2" by auto
    with new1 True show ?thesis
      by (intro exI [of _ 1] exI [of _ new1]) (auto simp: all_raised_def)
  next
    case False
    with Cons.prems step have rest: "try_methods E ms u w h alt wd2 = (ok, wd')" by auto
    from Cons.IH [OF rest] obtain k new where ih:
        "k \<le> length ms"
        "wd' = wd2\<lparr>emitted := emitted wd2 @ new, attempted := attempted wd2 @ take k ms\<rparr>"
        "all_raised (butlast new)"
        "ok \<longleftrightarrow> new \<noteq> [] \<and> snd (last new)"
        "ok \<longrightarrow> 0 < k"
        "\<not> ok \<longrightarrow> k = length ms"
        "event_emitter E \<noteq> None \<longrightarrow> length new = k"
      by blast
    have raised1: "all_raised new1"
      using new1(2) False by (auto simp: all_raised_def)
    have bl: "all_raised (butlast (new1 @ new))"
      using raised1 ih(3)
      by (cases "new = []") (auto simp: all_raised_def list_all_iff butlast_append dest: in_set_butlastD)
    have lst: "ok \<longleftrightarrow> new1 @ new \<noteq> [] \<and> snd (last (new1 @ new))"
      using ih(4) raised1 new1(2) by (cases "new = []") (auto simp: all_raised_def)
    show ?thesis
      using ih new1 bl lst
      by (intro exI [of _ "Suc k"] exI [of _ "new1 @ new"]) auto
  qed
qed

lemma all_raised_last:
  assumes "all_raised (butlast new)" and "\<not> (new \<noteq> [] \<and> snd (last new))"
  shows "all_raised new"
proof (cases "new = []")
  case True
  then show ?thesis by (simp add: all_raised_def)
next
  case False
  then have "new = butlast new @ [last new]" by simp
  then have "all_raised new \<longleftrightarrow> all_raised (butlast new) \<and> \<not> snd (last new)"
    unfolding all_raised_def by (metis (mono_tags, lifting) list_all_append list.pred_inject)
  with assms False show ?thesis by simp
qed













subsection \<open>The resolver\<close>

lemma path_field_iff: "(f = ''url'' \<or> f \<in> set [''file_path'', ''path'']) = (f \<in> set path_fields)"
  by (auto simp: path_fields_def)

lemma b64_field_iff: "(f \<in> set [''b64'', ''base64'']) = (f \<in> set b64_fields)"
  by (simp add: b64_fields_def)

lemma scan_fields_step:
  "scan_fields E d (f # rest) wd =
     (case map_of d f of
        None \<Rightarrow> scan_fields E d rest wd
      | Some v \<Rightarrow>
          if \<not> truthy v then scan_fields E d rest wd
          else if f \<in> set path_fields then
            (case path_or_url E v wd of (r, wd') \<Rightarrow> (Inr r, wd'))
          else if f \<in> set b64_fields then
            (case v of
               PStr s \<Rightarrow> (Inr (PStr (make_data_uri_from_b64 s ''image/png'')), wd)
             | _ \<Rightarrow> (Inl (PyExn ''AttributeError'' ''object has no attribute startswith''), wd))
          else if is_uri v then (Inr v, wd)
          else scan_fields E d rest wd)"
  unfolding path_field_iff [symmetric] b64_field_iff [symmetric]
  by (rule scan_fields.simps(2))

lemma scan_fields_find:
  "scan_fields E d flds wd =
     (case find (usable d) flds of
        None \<Rightarrow> (Inr PNone, wd)
      | Some f \<Rightarrow> (case map_of d f of Some v \<Rightarrow> from_field E f v wd | None \<Rightarrow> (Inr PNone, wd)))"
proof (induction flds)
  case Nil
  show ?case by simp
next
  case (Cons f rest)
  show ?case
  proof (cases "map_of d f")
    case None
    then have "\<not> usable d f" by (simp add: usable_def)
    with None Cons.IH show ?thesis by (simp only: scan_fields_step find.simps option.case if_False)
  next
    case (Some v)
    show ?thesis
    proof (cases "usable d f")
      case False
      with Some have skip: "\<not> truthy v \<or> (f \<notin> set path_fields \<and> f \<notin> set b64_fields \<and> \<not> is_uri v)"
        by (auto simp: usable_def)
      have "scan_fields E d (f # rest) wd = scan_fields E d rest wd"
        using skip Some by (auto simp add: scan_fields_step simp del: scan_fields.simps)
      with False Cons.IH show ?thesis by (simp only: find.simps if_False)
    next
      case True
      with Some have use: "truthy v" "f \<in> set path_fields \<or> f \<in> set b64_fields \<or> is_uri v"
        by (auto simp: usable_def)
      have "scan_fields E d (f # rest) wd = from_field E f v wd"
        unfolding scan_fields_step from_field_def using use Some
        by (auto simp add: split_beta)
      with True Some show ?thesis by (simp only: find.simps if_True option.case)
    qed
  qed
qed

lemma from_field_falsy:
  assumes "from_field E f v wd = (Inr r, wd')" and "truthy v" and "\<not> truthy r"
  shows "f \<in> set path_fields
         \<and> (\<exists>s file_size content. v = PStr s
               \<and> fs E s = Inr (Some (RegularFile file_size content))
               \<and> r = PStr [] \<and> path_to_data_uri E s wd = ([], wd'))"
proof (cases "f \<in> set path_fields")
  case True
  with assms show ?thesis
    by (auto simp: from_field_def path_or_url_def
        split: pyval.splits sum.splits option.splits fsnode.splits prod.splits)
next
  case False
  with assms show ?thesis
    by (auto simp: from_field_def make_data_uri_from_b64_def startswith_def
        split: pyval.splits if_splits)
qed

text \<open>
  C3 (as amended).  The resolver scans the fields in the fixed order and uses the first
  field that is usable: present with a truthy value and either a path field, a base64
  field, or a field whose value is a string starting with \<open>data:\<close> or \<open>http\<close>.  The
  image is what that field and its value give.  The serialized mapping is the result
  when no field is usable, and when the field used gives an empty image, which happens
  only for a path field naming a regular file that the materializer rejects.
\<close>

theorem C3_resolve_mapping:
  "priority_fields
     = [''url'', ''b64'', ''image'', ''data'', ''base64'', ''file_path'', ''path'', ''src'',
        ''image_url'']
   \<and> (find (usable d) priority_fields = None
        \<longrightarrow> resolve_item E (PDict d) wd = json_fallback E d wd)
   \<and> (\<forall>f v. find (usable d) priority_fields = Some f \<and> map_of d f = Some v
        \<longrightarrow> (case from_field E f v wd of
               (Inl e, wd') \<Rightarrow> resolve_item E (PDict d) wd = (Inl e, wd')
             | (Inr r, wd') \<Rightarrow>
                 resolve_item E (PDict d) wd
                   = (if truthy r then (Inr r, wd') else json_fallback E d wd')))
   \<and> (\<forall>f v r wd'. from_field E f v wd = (Inr r, wd') \<and> truthy v \<and> \<not> truthy r
        \<longrightarrow> f \<in> set path_fields
            \<and> (\<exists>s file_size content. v = PStr s
                  \<and> fs E s = Inr (Some (RegularFile file_size content))
                  \<and> path_to_data_uri E s wd = ([], wd')))"
proof -
  have order: "priority_fields
     = [''url'', ''b64'', ''image'', ''data'', ''base64'', ''file_path'', ''path'', ''src'',
        ''image_url'']"
    by (simp add: priority_fields_def)
  have none: "find (usable d) priority_fields = None
        \<longrightarrow> resolve_item E (PDict d) wd = json_fallback E d wd"
    by (simp add: resolve_item_def scan_fields_find json_fallback_def)
  have some: "\<forall>f v. find (usable d) priority_fields = Some f \<and> map_of d f = Some v
        \<longrightarrow> (case from_field E f v wd of
               (Inl e, wd') \<Rightarrow> resolve_item E (PDict d) wd = (Inl e, wd')
             | (Inr r, wd') \<Rightarrow>
                 resolve_item E (PDict d) wd
                   = (if truthy r then (Inr r, wd') else json_fallback E d wd'))"
    by (auto simp: resolve_item_def scan_fields_find json_fallback_def
        split: prod.splits sum.splits)
  have falsy: "\<forall>f v r wd'. from_field E f v wd = (Inr r, wd') \<and> truthy v \<and> \<not> truthy r
        \<longrightarrow> f \<in> set path_fields
            \<and> (\<exists>s file_size content. v = PStr s
                  \<and> fs E s = Inr (Some (RegularFile file_size content))
                  \<and> path_to_data_uri E s wd = ([], wd'))"
    using from_field_falsy by blast
  from order none some falsy show ?thesis by blast
qed
theorem C3_resolve_mapping_witness:
  "find (usable [(''image'', PStr ''foo''), (''base64'', PStr ''QUJD'')]) priority_fields
     = Some ''base64''
   \<and> resolve_item (example_env default_valves [] None (Inr PNone) [])
        (PDict [(''image'', PStr ''foo''), (''base64'', PStr ''QUJD'')]) (example_world None)
      = (Inr (PStr ''data:image/png;base64,QUJD''), example_world None)
   \<and> find (usable [(''image'', PStr ''foo'')]) priority_fields = None
   \<and> resolve_item
        (example_env default_valves [] None (Inr PNone)
           [(PDict [(''image'', PStr ''foo'')],
             ''{'' @ dq @ ''image'' @ dq @ '': '' @ dq @ ''foo'' @ dq @ ''}'')])
        (PDict [(''image'', PStr ''foo'')]) (example_world None)
      = (Inr (PStr (''{'' @ dq @ ''image'' @ dq @ '': '' @ dq @ ''foo'' @ dq @ ''}'')),
         example_world None)
   \<and> from_field (example_env default_valves [(''/tmp/notes.txt'', RegularFile 5 (Inr []))] None
                   (Inr PNone) [])
        ''url'' (PStr ''/tmp/notes.txt'') (example_world None)
      = (Inr (PStr []), example_world None)
   \<and> path_to_data_uri
        (example_env default_valves [(''/tmp/notes.txt'', RegularFile 5 (Inr []))] None
           (Inr PNone) [])
        ''/tmp/notes.txt'' (example_world None)
      = ([], example_world None)"
proof -
  let ?w = "example_world None"
  let ?d1 = "[(''image'', PStr ''foo''), (''base64'', PStr ''QUJD'')]"
  let ?E1 = "example_env default_valves [] None (Inr PNone) []"
  let ?d2 = "[(''image'', PStr ''foo'')]"
  let ?json = "''{'' @ dq @ ''image'' @ dq @ '': '' @ dq @ ''foo'' @ dq @ ''}''"
  let ?E2 = "example_env default_valves [] None (Inr PNone) [(PDict ?d2, ?json)]"
  let ?E3 = "example_env default_valves [(''/tmp/notes.txt'', RegularFile 5 (Inr []))] None
               (Inr PNone) []"
  have sel1: "find (usable ?d1) priority_fields = Some ''base64''"
    by (simp add: usable_def priority_fields_def path_fields_def b64_fields_def startswith_def)
  have val1: "map_of ?d1 ''base64'' = Some (PStr ''QUJD'')"
    by simp
  have img1: "from_field ?E1 ''base64'' (PStr ''QUJD'') ?w
                = (Inr (PStr ''data:image/png;base64,QUJD''), ?w)"
    by (simp add: from_field_def path_fields_def b64_fields_def make_data_uri_from_b64_def
        startswith_def)
  have sel2: "find (usable ?d2) priority_fields = None"
    by (simp add: usable_def priority_fields_def path_fields_def b64_fields_def startswith_def)
  have fb2: "json_fallback ?E2 ?d2 ?w = (Inr (PStr ?json), ?w)"
    by (simp add: json_fallback_def example_defs)
  have img3: "from_field ?E3 ''url'' (PStr ''/tmp/notes.txt'') ?w = (Inr (PStr []), ?w)"
    by (simp add: from_field_def path_fields_def path_or_url_def path_to_data_uri_def
        example_defs string_defs)
  have r1: "resolve_item ?E1 (PDict ?d1) ?w = (Inr (PStr ''data:image/png;base64,QUJD''), ?w)"
    using C3_resolve_mapping [of ?d1 ?E1 ?w] sel1 val1 img1 by simp
  have r2: "resolve_item ?E2 (PDict ?d2) ?w = (Inr (PStr ?json), ?w)"
    using C3_resolve_mapping [of ?d2 ?E2 ?w] sel2 fb2 by simp
  have r3: "path_to_data_uri ?E3 ''/tmp/notes.txt'' ?w = ([], ?w)"
    using C3_resolve_mapping [of _ ?E3 ?w] img3 by fastforce
  from sel1 r1 sel2 r2 img3 r3 show ?thesis by simp
qed

text \<open>
  The claim as first stated takes the first present field.  In the first mapping that is
  \<open>image\<close>, whose value \<open>foo\<close> is passed over, and the image comes from \<open>base64\<close>.  In
  the second a field is present and the result is the serialized mapping all the same.
\<close>

theorem C3_first_present_counterexample:
  "find (present [(''image'', PStr ''foo''), (''base64'', PStr ''QUJD'')]) priority_fields
     = Some ''image''
   \<and> map_of [(''image'', PStr ''foo''), (''base64'', PStr ''QUJD'')] ''image'' = Some (PStr ''foo'')
   \<and> resolve_item (example_env default_valves [] None (Inr PNone) [])
        (PDict [(''image'', PStr ''foo''), (''base64'', PStr ''QUJD'')]) (example_world None)
      = (Inr (PStr ''data:image/png;base64,QUJD''), example_world None)
   \<and> find (present [(''image'', PStr ''foo'')]) priority_fields = Some ''image''
   \<and> resolve_item
        (example_env default_valves [] None (Inr PNone)
           [(PDict [(''image'', PStr ''foo'')],
             ''{'' @ dq @ ''image'' @ dq @ '': '' @ dq @ ''foo'' @ dq @ ''}'')])
        (PDict [(''image'', PStr ''foo'')]) (example_world None)
      = (Inr (PStr (''{'' @ dq @ ''image'' @ dq @ '': '' @ dq @ ''foo'' @ dq @ ''}'')),
         example_world None)"
  by (simp add: present_def priority_fields_def resolve_item_def make_data_uri_from_b64_def
      startswith_def example_defs)

lemma find_present_usable:
  assumes "find (present d) flds = Some f" and "f \<in> set path_fields \<or> f \<in> set b64_fields"
  shows "find (usable d) flds = Some f"
  using assms
proof (induction flds)
  case Nil
  then show ?case by simp
next
  case (Cons g rest)
  show ?case
  proof (cases "present d g")
    case True
    with Cons.prems have "g = f" by simp
    with True Cons.prems(2) have "usable d g"
      by (auto simp: usable_def present_def split: option.splits)
    with \<open>g = f\<close> show ?thesis by simp
  next
    case False
    then have "\<not> usable d g"
      by (auto simp: usable_def present_def split: option.splits)
    with False Cons show ?thesis by simp
  qed
qed

text \<open>
  C4 (as amended).  Let the first present field of a mapping be \<open>url\<close>, \<open>file_path\<close> or
  \<open>path\<close>.  When its value names an existing regular file, the field scan hands it to
  the materializer; the resolved image is the materializer's data URI when that is not
  empty, and the serialized mapping when the materializer rejects the file.  When the
  value does not name an existing regular file, it is passed through unchanged.
\<close>

theorem C4_path_field:
  assumes "find (present d) priority_fields = Some f"
    and "f \<in> set path_fields"
    and "map_of d f = Some v"
  shows "(\<forall>s file_size content.
             v = PStr s \<and> fs E s = Inr (Some (RegularFile file_size content))
             \<longrightarrow> scan_fields E d priority_fields wd
                   = (Inr (PStr (fst (path_to_data_uri E s wd))), snd (path_to_data_uri E s wd))
                 \<and> resolve_item E (PDict d) wd
                   = (if fst (path_to_data_uri E s wd) \<noteq> []
                      then (Inr (PStr (fst (path_to_data_uri E s wd))),
                            snd (path_to_data_uri E s wd))
                      else json_fallback E d (snd (path_to_data_uri E s wd))))
         \<and> ((\<forall>s file_size content.
                v = PStr s \<longrightarrow> fs E s \<noteq> Inr (Some (RegularFile file_size content)))
              \<longrightarrow> resolve_item E (PDict d) wd = (Inr v, wd))"
proof -
  have sel: "find (usable d) priority_fields = Some f"
    using find_present_usable assms(1,2) by blast
  have "present d f"
    using assms(1) by (auto simp: find_Some_iff)
  with assms(3) have tv: "truthy v"
    by (simp add: present_def)
  have scan: "scan_fields E d priority_fields wd
                = (Inr (fst (path_or_url E v wd)), snd (path_or_url E v wd))"
    using sel assms(2,3) by (simp add: scan_fields_find from_field_def)
  have regular: "scan_fields E d priority_fields wd
                   = (Inr (PStr (fst (path_to_data_uri E s wd))), snd (path_to_data_uri E s wd))
                 \<and> resolve_item E (PDict d) wd
                   = (if fst (path_to_data_uri E s wd) \<noteq> []
                      then (Inr (PStr (fst (path_to_data_uri E s wd))),
                            snd (path_to_data_uri E s wd))
                      else json_fallback E d (snd (path_to_data_uri E s wd)))"
    if "v = PStr s" "fs E s = Inr (Some (RegularFile file_size content))"
    for s file_size content
  proof -
    from that have "path_or_url E v wd
                      = (PStr (fst (path_to_data_uri E s wd)), snd (path_to_data_uri E s wd))"
      by (simp add: path_or_url_def split_beta)
    with scan have sc: "scan_fields E d priority_fields wd
        = (Inr (PStr (fst (path_to_data_uri E s wd))), snd (path_to_data_uri E s wd))"
      by simp
    then show ?thesis
      by (simp add: resolve_item_def json_fallback_def)
  qed
  have other: "resolve_item E (PDict d) wd = (Inr v, wd)"
    if "\<forall>s file_size content. v = PStr s \<longrightarrow> fs E s \<noteq> Inr (Some (RegularFile file_size content))"
  proof -
    from that have "path_or_url E v wd = (v, wd)"
      by (auto simp: path_or_url_def split: pyval.splits sum.splits option.splits fsnode.splits)
    with scan tv show ?thesis
      by (simp add: resolve_item_def)
  qed
  from regular other show ?thesis by blast
qed

theorem C4_path_field_witness:
  "find (present [(''url'', PStr ''/tmp/cat.png'')]) priority_fields = Some ''url''
   \<and> resolve_item
        (example_env default_valves [(''/tmp/cat.png'', RegularFile 3 (Inr [65, 66, 67]))] None
           (Inr PNone) [])
        (PDict [(''url'', PStr ''/tmp/cat.png'')]) (example_world None)
      = (Inr (PStr ''data:image/png;base64,QUJD''),
         (example_world None)\<lparr>opened := [''/tmp/cat.png'']\<rparr>)
   \<and> resolve_item (example_env default_valves [] None (Inr PNone) [])
        (PDict [(''url'', PStr ''/tmp/cat.png'')]) (example_world None)
      = (Inr (PStr ''/tmp/cat.png''), example_world None)"
proof -
  let ?w = "example_world None"
  let ?d = "[(''url'', PStr ''/tmp/cat.png'')]"
  let ?E1 = "example_env default_valves [(''/tmp/cat.png'', RegularFile 3 (Inr [65, 66, 67]))]
               None (Inr PNone) []"
  let ?E2 = "example_env default_valves [] None (Inr PNone) []"
  have first: "find (present ?d) priority_fields = Some ''url''"
    by (simp add: present_def priority_fields_def)
  have pf: "''url'' \<in> set path_fields"
    by (simp add: path_fields_def)
  have val: "map_of ?d ''url'' = Some (PStr ''/tmp/cat.png'')"
    by simp
  have regular: "fs ?E1 ''/tmp/cat.png'' = Inr (Some (RegularFile 3 (Inr [65, 66, 67])))"
    by (simp add: example_defs)
  have uri: "path_to_data_uri ?E1 ''/tmp/cat.png'' ?w
               = (''data:image/png;base64,QUJD'', ?w\<lparr>opened := [''/tmp/cat.png'']\<rparr>)"
    by (simp add: path_to_data_uri_def detected_mime_def mime_map_def b64_char_def
        b64_alphabet_def example_defs string_defs)
  have missing: "\<forall>s file_size content.
      PStr ''/tmp/cat.png'' = PStr s \<longrightarrow> fs ?E2 s \<noteq> Inr (Some (RegularFile file_size content))"
    by (simp add: example_defs)
  have r1: "resolve_item ?E1 (PDict ?d) ?w
              = (Inr (PStr ''data:image/png;base64,QUJD''), ?w\<lparr>opened := [''/tmp/cat.png'']\<rparr>)"
    using C4_path_field [OF first pf val, of ?E1 ?w] regular uri by simp
  have r2: "resolve_item ?E2 (PDict ?d) ?w = (Inr (PStr ''/tmp/cat.png''), ?w)"
    using C4_path_field [OF first pf val, of ?E2 ?w] missing by blast
  from first r1 r2 show ?thesis by simp
qed

text \<open>
  The claim as first stated promises a data URI for every existing regular file.  A text
  file exists and is regular; the materializer rejects its extension and the resolved
  image is the serialized mapping.
\<close>

theorem C4_rejected_file_counterexample:
  "find (present [(''url'', PStr ''/tmp/notes.txt'')]) priority_fields = Some ''url''
   \<and> fs (example_env default_valves [(''/tmp/notes.txt'', RegularFile 5 (Inr [104, 101, 108, 108, 111]))]
           None (Inr PNone)
           [(PDict [(''url'', PStr ''/tmp/notes.txt'')],
             ''{'' @ dq @ ''url'' @ dq @ '': '' @ dq @ ''/tmp/notes.txt'' @ dq @ ''}'')])
        ''/tmp/notes.txt''
      = Inr (Some (RegularFile 5 (Inr [104, 101, 108, 108, 111])))
   \<and> fst (resolve_item
        (example_env default_valves [(''/tmp/notes.txt'', RegularFile 5 (Inr [104, 101, 108, 108, 111]))]
           None (Inr PNone)
           [(PDict [(''url'', PStr ''/tmp/notes.txt'')],
             ''{'' @ dq @ ''url'' @ dq @ '': '' @ dq @ ''/tmp/notes.txt'' @ dq @ ''}'')])
        (PDict [(''url'', PStr ''/tmp/notes.txt'')]) (example_world None))
      = Inr (PStr (''{'' @ dq @ ''url'' @ dq @ '': '' @ dq @ ''/tmp/notes.txt'' @ dq @ ''}''))
   \<and> \<not> startswith (''{'' @ dq @ ''url'' @ dq @ '': '' @ dq @ ''/tmp/notes.txt'' @ dq @ ''}'')
          ''data:''"
  by (simp add: present_def priority_fields_def resolve_item_def path_or_url_def
      path_to_data_uri_def example_defs string_defs)

subsection \<open>What each part leaves unchanged\<close>

lemma send_event_host:
  "IMAGE_STEPS (snd (send_event E ev wd)) = IMAGE_STEPS wd
   \<and> generation_calls (snd (send_event E ev wd)) = generation_calls wd"
  by (simp add: send_event_def Let_def split: option.splits)

lemma emit_status_host:
  "IMAGE_STEPS (emit_status E ss d b wd) = IMAGE_STEPS wd
   \<and> generation_calls (emit_status E ss d b wd) = generation_calls wd"
  by (simp add: emit_status_def send_event_host)

lemma path_to_data_uri_host:
  "IMAGE_STEPS (snd (path_to_data_uri E p wd)) = IMAGE_STEPS wd
   \<and> generation_calls (snd (path_to_data_uri E p wd)) = generation_calls wd"
  by (simp add: path_to_data_uri_def Let_def split: sum.splits option.splits fsnode.splits)

lemma path_or_url_host:
  "IMAGE_STEPS (snd (path_or_url E v wd)) = IMAGE_STEPS wd
   \<and> generation_calls (snd (path_or_url E v wd)) = generation_calls wd"
  by (simp add: path_or_url_def path_to_data_uri_host split_beta
      split: pyval.splits sum.splits option.splits fsnode.splits)

lemma from_field_host:
  "IMAGE_STEPS (snd (from_field E f v wd)) = IMAGE_STEPS wd
   \<and> generation_calls (snd (from_field E f v wd)) = generation_calls wd"
  by (simp add: from_field_def path_or_url_host split: pyval.splits)

lemma scan_fields_host:
  "IMAGE_STEPS (snd (scan_fields E d flds wd)) = IMAGE_STEPS wd
   \<and> generation_calls (snd (scan_fields E d flds wd)) = generation_calls wd"
  by (simp add: scan_fields_find from_field_host split: option.splits)

lemma resolve_item_host:
  "IMAGE_STEPS (snd (resolve_item E it wd)) = IMAGE_STEPS wd
   \<and> generation_calls (snd (resolve_item E it wd)) = generation_calls wd"
proof (cases it)
  case (PDict d)
  obtain r wd1 where sc: "scan_fields E d priority_fields wd = (r, wd1)"
    by (cases "scan_fields E d priority_fields wd") auto
  with scan_fields_host [of E d priority_fields wd]
  have "IMAGE_STEPS wd1 = IMAGE_STEPS wd \<and> generation_calls wd1 = generation_calls wd"
    by simp
  with PDict sc show ?thesis
    by (simp add: resolve_item_def split: sum.splits)
next
  case (PStr s)
  with path_or_url_host [of E it wd] show ?thesis
    by (simp add: resolve_item_def split_beta)
qed (simp_all add: resolve_item_def)

lemma process_items_host:
  "IMAGE_STEPS (snd (process_items E items out wd)) = IMAGE_STEPS wd
   \<and> generation_calls (snd (process_items E items out wd)) = generation_calls wd"
proof (induction items arbitrary: out wd)
  case Nil
  show ?case by simp
next
  case (Cons it rest)
  obtain r wd1 where step: "resolve_item E it wd = (r, wd1)"
    by (cases "resolve_item E it wd") auto
  with resolve_item_host [of E it wd]
  have same: "IMAGE_STEPS wd1 = IMAGE_STEPS wd \<and> generation_calls wd1 = generation_calls wd"
    by simp
  show ?case
  proof (cases r)
    case (Inl e)
    with step same show ?thesis by simp
  next
    case (Inr processed_url)
    with step same Cons.IH [of _ wd1] show ?thesis by simp
  qed
qed

lemma try_methods_host:
  "IMAGE_STEPS (snd (try_methods E ms u w h alt wd)) = IMAGE_STEPS wd
   \<and> generation_calls (snd (try_methods E ms u w h alt wd)) = generation_calls wd"
proof -
  obtain ok wd' where run: "try_methods E ms u w h alt wd = (ok, wd')"
    by (cases "try_methods E ms u w h alt wd") auto
  from try_methods_trace [OF run] run show ?thesis by auto
qed

lemma emit_image_host:
  "IMAGE_STEPS (snd (emit_image E prm aat u w h alt i wd)) = IMAGE_STEPS wd
   \<and> generation_calls (snd (emit_image E prm aat u w h alt i wd)) = generation_calls wd"
  by (simp add: emit_image_def Let_def try_methods_host split_beta split: sum.splits)

lemma emit_all_host:
  "IMAGE_STEPS (snd (emit_all E a aat urls idx n wd)) = IMAGE_STEPS wd
   \<and> generation_calls (snd (emit_all E a aat urls idx n wd)) = generation_calls wd"
proof (induction urls arbitrary: idx n wd)
  case Nil
  show ?case by simp
next
  case (Cons url rest)
  obtain r wd1 where step:
    "emit_image E (prompt a) aat url (Some (width a)) (Some (height a))
       (''imagen_generada_'' @ show_nat (idx + 1)) (int idx + 1) wd = (r, wd1)"
    by (cases "emit_image E (prompt a) aat url (Some (width a)) (Some (height a))
                 (''imagen_generada_'' @ show_nat (idx + 1)) (int idx + 1) wd") auto
  with emit_image_host [of E "prompt a" aat url "Some (width a)" "Some (height a)"
      "''imagen_generada_'' @ show_nat (idx + 1)" "int idx + 1" wd]
  have same: "IMAGE_STEPS wd1 = IMAGE_STEPS wd \<and> generation_calls wd1 = generation_calls wd"
    by simp
  show ?case
  proof (cases r)
    case (Inl e)
    with step same show ?thesis by simp
  next
    case (Inr ok)
    with step same Cons.IH [of _ _ wd1] show ?thesis by simp
  qed
qed

lemma handle_response_host:
  "IMAGE_STEPS (snd (handle_response E a ss aat imgs wd)) = IMAGE_STEPS wd
   \<and> generation_calls (snd (handle_response E a ss aat imgs wd)) = generation_calls wd"
proof -
  obtain r1 wd1 where p: "process_items E (raw_items imgs) [] wd = (r1, wd1)"
    by (cases "process_items E (raw_items imgs) [] wd") auto
  with process_items_host [of E "raw_items imgs" "[]" wd]
  have s1: "IMAGE_STEPS wd1 = IMAGE_STEPS wd \<and> generation_calls wd1 = generation_calls wd"
    by simp
  show ?thesis
  proof (cases r1)
    case (Inl e)
    with p s1 show ?thesis by (simp add: handle_response_def)
  next
    case (Inr images_out)
    obtain r2 wd2 where q: "emit_all E a aat images_out 0 0 wd1 = (r2, wd2)"
      by (cases "emit_all E a aat images_out 0 0 wd1") auto
    with emit_all_host [of E a aat images_out 0 0 wd1] s1
    have s2: "IMAGE_STEPS wd2 = IMAGE_STEPS wd \<and> generation_calls wd2 = generation_calls wd"
      by simp
    with Inr p q show ?thesis
      by (cases r2) (simp_all add: handle_response_def emit_status_host)
  qed
qed

lemma call_generation_calls:
  "generation_calls (snd (call_generation E a ss wd))
     = generation_calls wd
       @ [(IMAGE_STEPS wd,
           if form_accepts E (build_payload a) then GenerateImageForm (build_payload a)
           else PayloadDict (build_payload a),
           lookup_user E (user a))]
   \<and> fst (call_generation E a ss wd)
     = fst (image_generations E (IMAGE_STEPS wd)
              (if form_accepts E (build_payload a) then GenerateImageForm (build_payload a)
               else PayloadDict (build_payload a))
              (lookup_user E (user a)))"
  by (simp add: call_generation_def Let_def emit_status_host)

lemma try_body_calls:
  "generation_calls (snd (try_body E a ss aat wd))
     = (if images_module E = None
        then generation_calls wd
             @ [(IMAGE_STEPS wd,
                 if form_accepts E (build_payload a) then GenerateImageForm (build_payload a)
                 else PayloadDict (build_payload a),
                 lookup_user E (user a))]
        else generation_calls wd)"
proof (cases "images_module E")
  case (Some e)
  then show ?thesis by (simp add: try_body_def)
next
  case None
  obtain r wd1 where c: "call_generation E a ss wd = (r, wd1)"
    by (cases "call_generation E a ss wd") auto
  with call_generation_calls [of E a ss wd]
  have calls: "generation_calls wd1
     = generation_calls wd
       @ [(IMAGE_STEPS wd,
           if form_accepts E (build_payload a) then GenerateImageForm (build_payload a)
           else PayloadDict (build_payload a),
           lookup_user E (user a))]"
    by simp
  show ?thesis
  proof (cases r)
    case (Inl e)
    with None c calls show ?thesis by (simp add: try_body_def)
  next
    case (Inr imgs)
    with None c calls handle_response_host [of E a ss aat imgs wd1] show ?thesis
      by (simp add: try_body_def)
  qed
qed

subsection \<open>The entry point\<close>

lemma user_valves_of_ok:
  assumes "\<not> truthy u \<or> (\<exists>d. u = PDict d)"
  shows "\<exists>uv. user_valves_of u = Inr uv"
proof (cases "truthy u")
  case False
  then show ?thesis by (simp add: user_valves_of_def)
next
  case True
  with assms obtain d where d: "u = PDict d" by blast
  show ?thesis
  proof (cases "''valves'' \<in> set (map fst d)")
    case False
    with d True show ?thesis by (simp add: user_valves_of_def)
  next
    case inside: True
    then obtain v where "map_of d ''valves'' = Some v"
      by (metis map_of_eq_None_iff not_Some_eq set_map)
    with d True inside show ?thesis by (simp add: user_valves_of_def)
  qed
qed

lemma entry_check_ok:
  assumes "\<not> truthy (user a) \<or> (\<exists>d. user a = PDict d)"
    and "is_str (prompt a) \<or> (\<exists>xs. prompt a = PList xs)"
  shows "\<exists>uv. entry_check a = Inr uv"
proof -
  from user_valves_of_ok [OF assms(1)] obtain uv where "user_valves_of (user a) = Inr uv"
    by blast
  moreover from assms(2) have "log_prompt (prompt a) = Inr ()"
    by (cases "prompt a") auto
  ultimately show ?thesis by (simp add: entry_check_def)
qed

lemma generate_image_raises:
  assumes "entry_check a = Inl e"
  shows "generate_image E a wd = (Inl e, wd)"
  using assms by (auto simp: generate_image_def entry_check_def split: sum.splits)

lemma generate_image_returns:
  assumes "entry_check a = Inr uv"
  shows "generate_image E a wd =
           (let ss = read_show_status uv;
                wd1 = emit_status E ss Initializing False wd;
                saved = override_steps E (steps a) wd1;
                handled = try_except E a ss (read_auto_alt_text uv) (snd saved)
            in (Inr (fst handled), restore_steps E (fst saved) (snd handled)))"
  using assms by (auto simp: generate_image_def entry_check_def Let_def split: sum.splits)

lemma on_exception_host:
  "IMAGE_STEPS (snd (on_exception E ss e wd)) = IMAGE_STEPS wd
   \<and> generation_calls (snd (on_exception E ss e wd)) = generation_calls wd"
  by (simp add: on_exception_def emit_status_host)

lemma try_except_calls:
  "generation_calls (snd (try_except E a ss aat wd))
     = generation_calls (snd (try_body E a ss aat wd))"
proof -
  obtain r wd1 where b: "try_body E a ss aat wd = (r, wd1)"
    by (cases "try_body E a ss aat wd") auto
  then show ?thesis
    by (cases r) (simp_all add: try_except_def on_exception_host)
qed

text \<open>
  C2 (as amended).  When the first read of the host setting succeeds with a value other
  than \<open>None\<close> and the two assignments to the setting complete (the override with the
  request's \<open>steps\<close>, and the restoring one whatever the setting holds by then), every
  call of the generation collaborator made by the invocation sees the setting equal to
  \<open>steps\<close>, and when the invocation ends, by a return or by an exception, the setting
  has the value it had before.
\<close>

theorem C2_steps_overridden_and_restored:
  assumes "IMAGE_STEPS wd = Some original"
    and "original \<noteq> PNone"
    and "assignable E (Some original) (PInt (steps a))"
    and "\<forall>current. assignable E current original"
    and "generate_image E a wd = (out, wd')"
  shows "IMAGE_STEPS wd' = Some original
         \<and> (\<exists>new. generation_calls wd' = generation_calls wd @ new
               \<and> length new \<le> 1
               \<and> (\<forall>c \<in> set new. fst c = Some (PInt (steps a))))"
proof (cases "entry_check a")
  case (Inl e)
  with assms show ?thesis
    by (simp add: generate_image_raises)
next
  case (Inr uv)
  define ss where "ss = read_show_status uv"
  define aat where "aat = read_auto_alt_text uv"
  define wd1 where "wd1 = emit_status E ss Initializing False wd"
  define wd2 where "wd2 = wd1\<lparr>IMAGE_STEPS := Some (PInt (steps a))\<rparr>"
  define handled where "handled = try_except E a ss aat wd2"
  define ran where "ran = try_body E a ss aat wd2"
  have wd1: "IMAGE_STEPS wd1 = Some original" "generation_calls wd1 = generation_calls wd"
    using assms(1) by (simp_all add: wd1_def emit_status_host)
  then have saved: "override_steps E (steps a) wd1 = (original, wd2)"
    using assms(3) by (simp add: override_steps_def wd2_def)
  have wd2: "IMAGE_STEPS wd2 = Some (PInt (steps a))" "generation_calls wd2 = generation_calls wd"
    using wd1 by (simp_all add: wd2_def)
  have "generate_image E a wd = (Inr (fst handled), restore_steps E original (snd handled))"
    using saved
    by (simp add: generate_image_returns [OF Inr] Let_def handled_def wd2_def wd1_def
        ss_def aat_def)
  with assms(5) have end_state: "wd' = restore_steps E original (snd handled)"
    by simp
  have restored: "IMAGE_STEPS wd' = Some original"
    using end_state assms(2,4) by (simp add: restore_steps_def)
  have calls: "generation_calls wd' = generation_calls (snd ran)"
    using end_state by (simp add: restore_steps_def handled_def ran_def try_except_calls)
  have "\<exists>new. generation_calls (snd ran) = generation_calls wd @ new
               \<and> length new \<le> 1
               \<and> (\<forall>c \<in> set new. fst c = Some (PInt (steps a)))"
  proof (cases "images_module E = None")
    case True
    with try_body_calls [of E a ss aat wd2] wd2 show ?thesis
      by (simp add: ran_def)
  next
    case False
    with try_body_calls [of E a ss aat wd2] wd2 show ?thesis
      by (simp add: ran_def)
  qed
  with restored calls show ?thesis by simp
qed

theorem C2_steps_overridden_and_restored_witness:
  "IMAGE_STEPS (example_world (Some (PInt 50))) = Some (PInt 50)
   \<and> PInt 50 \<noteq> PNone
   \<and> assignable
        (example_env default_valves [] None (Inl (PyExn ''RuntimeError'' ''ComfyUI is down'')) [])
        (Some (PInt 50)) (PInt (steps (example_args PNone)))
   \<and> (\<forall>current. assignable
        (example_env default_valves [] None (Inl (PyExn ''RuntimeError'' ''ComfyUI is down'')) [])
        current (PInt 50))
   \<and> IMAGE_STEPS (snd (generate_image
        (example_env default_valves [] None (Inl (PyExn ''RuntimeError'' ''ComfyUI is down'')) [])
        (example_args PNone) (example_world (Some (PInt 50))))) = Some (PInt 50)
   \<and> map fst (generation_calls (snd (generate_image
        (example_env default_valves [] None (Inl (PyExn ''RuntimeError'' ''ComfyUI is down'')) [])
        (example_args PNone) (example_world (Some (PInt 50)))))) = [Some (PInt 15)]"
proof -
  let ?E = "example_env default_valves [] None (Inl (PyExn ''RuntimeError'' ''ComfyUI is down'')) []"
  let ?run = "generate_image ?E (example_args PNone) (example_world (Some (PInt 50)))"
  have arg: "user (example_args PNone) = PNone" "prompt (example_args PNone) = PStr ''a red cat''"
      "steps (example_args PNone) = 15"
    by (simp_all add: example_args_def)
  have before: "IMAGE_STEPS (example_world (Some (PInt 50))) = Some (PInt 50)"
    by (simp add: example_world_def)
  have not_none: "PInt 50 \<noteq> PNone" by simp
  have override: "assignable ?E (Some (PInt 50)) (PInt (steps (example_args PNone)))"
    by (simp add: example_env_def)
  have restore: "\<forall>current. assignable ?E current (PInt 50)"
    by (simp add: example_env_def)
  have run: "?run = (fst ?run, snd ?run)" by simp
  from C2_steps_overridden_and_restored [OF before not_none override restore run]
  have restored: "IMAGE_STEPS (snd ?run) = Some (PInt 50)" by blast
  have calls: "map fst (generation_calls (snd ?run)) = [Some (PInt 15)]"
    by (simp add: arg generate_image_def user_valves_of_def read_show_status_def
        read_auto_alt_text_def get_valve_def emit_status_def
        send_event_def override_steps_def restore_steps_def try_except_def try_body_def
        call_generation_def
        on_exception_def Let_def example_env_def example_world_def)
  from before restored calls override restore show ?thesis by simp
qed

text \<open>
  The claim as first stated covers every setting whose first read succeeds.  The
  \<open>finally\<close> clause tells a saved value from no value by \<open>is not None\<close>: a setting
  that holds \<open>None\<close> is overridden and never restored.  A setting that can be read but
  not assigned is not overridden, and the collaborator sees the old value 50, not the
  \<open>steps\<close> 15.  A setting that takes the override but refuses the restoring assignment
  is left at 15.
\<close>

theorem C2_setting_counterexample:
  "IMAGE_STEPS (example_world (Some PNone)) = Some PNone
   \<and> IMAGE_STEPS (snd (generate_image
        (example_env default_valves [] None (Inr PNone) [])
        (example_args PNone) (example_world (Some PNone)))) = Some (PInt 15)
   \<and> map fst (generation_calls (snd (generate_image
        ((example_env default_valves [] None (Inr PNone) [])
           \<lparr>assignable := \<lambda>current v. False\<rparr>)
        (example_args PNone) (example_world (Some (PInt 50)))))) = [Some (PInt 50)]
   \<and> IMAGE_STEPS (snd (generate_image
        ((example_env default_valves [] None (Inr PNone) [])
           \<lparr>assignable := \<lambda>current v. v = PInt 15\<rparr>)
        (example_args PNone) (example_world (Some (PInt 50))))) = Some (PInt 15)"
proof -
  have arg: "user (example_args PNone) = PNone" "prompt (example_args PNone) = PStr ''a red cat''"
      "steps (example_args PNone) = 15"
    by (simp_all add: example_args_def)
  show ?thesis
    by (simp add: arg generate_image_def user_valves_of_def read_show_status_def
        read_auto_alt_text_def get_valve_def emit_status_def
        send_event_def override_steps_def restore_steps_def try_except_def try_body_def
        call_generation_def handle_response_def raw_items_def Let_def example_env_def
        example_world_def)
qed

lemma override_steps_calls:
  "generation_calls (snd (override_steps E n wd)) = generation_calls wd"
  by (simp add: override_steps_def split: option.splits)

lemma entry_state_calls:
  "generation_calls (entry_state E a uv wd) = generation_calls wd"
  by (simp add: entry_state_def override_steps_calls emit_status_host)

lemma generate_image_result:
  assumes "entry_check a = Inr uv"
  shows "fst (generate_image E a wd)
           = Inr (fst (try_except E a (read_show_status uv) (read_auto_alt_text uv)
                         (entry_state E a uv wd)))"
    and "generation_calls (snd (generate_image E a wd))
           = generation_calls (snd (try_body E a (read_show_status uv) (read_auto_alt_text uv)
                                      (entry_state E a uv wd)))"
proof -
  show "fst (generate_image E a wd)
           = Inr (fst (try_except E a (read_show_status uv) (read_auto_alt_text uv)
                         (entry_state E a uv wd)))"
    by (simp add: generate_image_returns [OF assms] Let_def entry_state_def)
  have "generation_calls (snd (generate_image E a wd))
          = generation_calls (snd (try_except E a (read_show_status uv) (read_auto_alt_text uv)
                                     (entry_state E a uv wd)))"
    by (simp add: generate_image_returns [OF assms] Let_def entry_state_def restore_steps_def)
  then show "generation_calls (snd (generate_image E a wd))
           = generation_calls (snd (try_body E a (read_show_status uv) (read_auto_alt_text uv)
                                      (entry_state E a uv wd)))"
    by (simp add: try_except_calls)
qed

lemma try_except_success:
  assumes "success (fst (try_except E a ss aat wd))"
  shows "fst (try_body E a ss aat wd) = Inr (fst (try_except E a ss aat wd))"
proof -
  obtain r wd1 where b: "try_body E a ss aat wd = (r, wd1)"
    by (cases "try_body E a ss aat wd") auto
  with assms show ?thesis
    by (cases r) (simp_all add: try_except_def on_exception_def success_def)
qed

lemma try_body_returns:
  assumes "fst (try_body E a ss aat wd) = Inr r"
  shows "images_module E = None
         \<and> (\<exists>imgs images_out wd1 n wd2.
               fst (call_generation E a ss wd) = Inr imgs
               \<and> process_items E (raw_items imgs) [] (snd (call_generation E a ss wd))
                   = (Inr images_out, wd1)
               \<and> emit_all E a aat images_out 0 0 wd1 = (Inr n, wd2)
               \<and> r = success_result E ss aat imgs images_out n)"
proof (cases "images_module E")
  case (Some e)
  with assms show ?thesis by (simp add: try_body_def)
next
  case None
  obtain c wdc where c: "call_generation E a ss wd = (c, wdc)"
    by (cases "call_generation E a ss wd") auto
  show ?thesis
  proof (cases c)
    case (Inl e)
    with assms None c show ?thesis by (simp add: try_body_def)
  next
    case (Inr imgs)
    with assms None c have h: "fst (handle_response E a ss aat imgs wdc) = Inr r"
      by (simp add: try_body_def)
    obtain p wd1 where p: "process_items E (raw_items imgs) [] wdc = (p, wd1)"
      by (cases "process_items E (raw_items imgs) [] wdc") auto
    show ?thesis
    proof (cases p)
      case (Inl e)
      with h p show ?thesis by (simp add: handle_response_def)
    next
      case out: (Inr images_out)
      obtain q wd2 where q: "emit_all E a aat images_out 0 0 wd1 = (q, wd2)"
        by (cases "emit_all E a aat images_out 0 0 wd1") auto
      show ?thesis
      proof (cases q)
        case (Inl e)
        with h p out q show ?thesis by (simp add: handle_response_def)
      next
        case cnt: (Inr n)
        with h p out q have "r = success_result E ss aat imgs images_out n"
          by (simp add: handle_response_def)
        with None c Inr p out q cnt show ?thesis by auto
      qed
    qed
  qed
qed

text \<open>
  C9.  In an invocation that calls the generation collaborator and gets \<open>None\<close> from
  it, the result is the success dict with no images, \<open>images_emitted = 0\<close> and
  \<open>total_processed = 0\<close>.
\<close>

theorem C9_none_response:
  assumes "generate_image E a wd = (out, wd')"
    and "generation_calls wd' = generation_calls wd @ [(cur, frm, u)]"
    and "fst (image_generations E cur frm u) = Inr PNone"
  shows "\<exists>r. out = Inr r \<and> success r \<and> images r = [] \<and> images_emitted r = 0
              \<and> total_processed r = 0"
proof (cases "entry_check a")
  case (Inl e)
  with assms(1,2) show ?thesis
    by (simp add: generate_image_raises)
next
  case (Inr uv)
  let ?ss = "read_show_status uv"
  let ?aat = "read_auto_alt_text uv"
  let ?wd = "entry_state E a uv wd"
  have calls: "generation_calls (snd (try_body E a ?ss ?aat ?wd))
                 = generation_calls wd @ [(cur, frm, u)]"
    using generate_image_result(2) [OF Inr, of E wd] assms(1,2) by simp
  have import: "images_module E = None"
    using calls try_body_calls [of E a ?ss ?aat ?wd]
    by (cases "images_module E = None") (simp_all add: entry_state_calls)
  with calls try_body_calls [of E a ?ss ?aat ?wd]
  have same: "(cur, frm, u)
      = (IMAGE_STEPS ?wd,
         if form_accepts E (build_payload a) then GenerateImageForm (build_payload a)
         else PayloadDict (build_payload a),
         lookup_user E (user a))"
    by (simp add: entry_state_calls)
  have answer: "fst (call_generation E a ?ss ?wd) = Inr PNone"
    using call_generation_calls [of E a ?ss ?wd] same assms(3) by simp
  obtain wdc where c: "call_generation E a ?ss ?wd = (Inr PNone, wdc)"
    using answer by (cases "call_generation E a ?ss ?wd") auto
  have body: "fst (try_body E a ?ss ?aat ?wd) = Inr (success_result E ?ss ?aat PNone [] 0)"
    using import c by (simp add: try_body_def handle_response_def raw_items_def)
  have "fst (try_except E a ?ss ?aat ?wd) = success_result E ?ss ?aat PNone [] 0"
  proof -
    obtain wdb where "try_body E a ?ss ?aat ?wd = (Inr (success_result E ?ss ?aat PNone [] 0), wdb)"
      using body by (cases "try_body E a ?ss ?aat ?wd") auto
    then show ?thesis by (simp add: try_except_def)
  qed
  with generate_image_result(1) [OF Inr, of E wd] assms(1)
  have "out = Inr (success_result E ?ss ?aat PNone [] 0)"
    by simp
  then show ?thesis
    by (simp add: success_result_def success_def)
qed

theorem C9_none_response_witness:
  "generation_calls (snd (generate_image (example_env default_valves [] None (Inr PNone) [])
       (example_args PNone) (example_world None)))
     = generation_calls (example_world None)
       @ [(None, GenerateImageForm (build_payload (example_args PNone)), PNone)]
   \<and> fst (image_generations (example_env default_valves [] None (Inr PNone) []) None
            (GenerateImageForm (build_payload (example_args PNone))) PNone) = Inr PNone
   \<and> (\<exists>r. fst (generate_image (example_env default_valves [] None (Inr PNone) [])
                 (example_args PNone) (example_world None)) = Inr r
          \<and> success r \<and> images r = [] \<and> images_emitted r = 0 \<and> total_processed r = 0)"
proof -
  let ?E = "example_env default_valves [] None (Inr PNone) []"
  let ?run = "generate_image ?E (example_args PNone) (example_world None)"
  let ?frm = "GenerateImageForm (build_payload (example_args PNone))"
  have run: "?run = (fst ?run, snd ?run)" by simp
  have arg: "user (example_args PNone) = PNone" "steps (example_args PNone) = 15"
      "prompt (example_args PNone) = PStr ''a red cat''"
    by (simp_all add: example_args_def)
  have calls: "generation_calls (snd ?run)
                 = generation_calls (example_world None) @ [(None, ?frm, PNone)]"
    by (simp add: arg generate_image_def user_valves_of_def read_show_status_def
        read_auto_alt_text_def get_valve_def emit_status_def send_event_def override_steps_def
        restore_steps_def try_except_def try_body_def call_generation_def handle_response_def
        raw_items_def lookup_user_def Let_def example_env_def example_world_def table_fs_def)
  have answer: "fst (image_generations ?E None ?frm PNone) = Inr PNone"
    by (simp add: example_env_def)
  from C9_none_response [OF run calls answer] calls answer show ?thesis
    by blast
qed

subsection \<open>The images of a success result\<close>

lemma path_or_url_string:
  "is_str v \<Longrightarrow> is_str (fst (path_or_url E v wd))"
  by (cases v) (simp_all add: path_or_url_def split_beta
      split: sum.splits option.splits fsnode.splits)

lemma from_field_string:
  assumes "from_field E f v wd = (Inr r, wd')"
    and "usable d f" and "map_of d f = Some v" and "string_valued (PDict d)"
  shows "is_str r"
proof (cases "f \<in> set path_fields")
  case True
  with assms(2,3,4) have "is_str v"
    by (auto simp: usable_def string_valued_def)
  with True assms(1) path_or_url_string [of v E wd] show ?thesis
    by (auto simp: from_field_def)
next
  case False
  show ?thesis
  proof (cases "f \<in> set b64_fields")
    case True
    with False assms(1) show ?thesis
      by (auto simp: from_field_def split: pyval.splits)
  next
    case no_b64: False
    with False assms(2,3) have "is_uri v" by (simp add: usable_def)
    then have "is_str v" by (cases v) simp_all
    with False no_b64 assms(1) show ?thesis
      by (simp add: from_field_def)
  qed
qed

lemma find_usable_value:
  assumes "find (usable d) flds = Some f"
  shows "usable d f \<and> (\<exists>v. map_of d f = Some v)"
proof -
  from assms have "usable d f" by (auto simp: find_Some_iff)
  then show ?thesis by (auto simp: usable_def split: option.splits)
qed

lemma resolve_item_string:
  assumes "resolve_item E it wd = (Inr r, wd')" and "string_valued it" and "truthy r"
  shows "is_str r"
proof (cases it)
  case (PDict d)
  obtain sc wd1 where sc: "scan_fields E d priority_fields wd = (sc, wd1)"
    by (cases "scan_fields E d priority_fields wd") auto
  show ?thesis
  proof (cases sc)
    case (Inl e)
    with assms(1) PDict sc show ?thesis by (simp add: resolve_item_def)
  next
    case (Inr processed_url)
    show ?thesis
    proof (cases "truthy processed_url")
      case False
      with assms(1) PDict sc Inr show ?thesis
        by (auto simp: resolve_item_def split: sum.splits)
    next
      case True
      with assms(1) PDict sc Inr have r: "r = processed_url"
        by (simp add: resolve_item_def)
      show ?thesis
      proof (cases "find (usable d) priority_fields")
        case None
        with sc Inr True show ?thesis by (simp add: scan_fields_find)
      next
        case (Some f)
        from find_usable_value [OF Some] obtain v where v: "usable d f" "map_of d f = Some v"
          by blast
        with sc Inr Some have "from_field E f v wd = (Inr processed_url, wd1)"
          by (simp add: scan_fields_find)
        from from_field_string [OF this v] assms(2) PDict r show ?thesis by simp
      qed
    qed
  qed
next
  case (PStr s)
  with assms(1) path_or_url_string [of it E wd] show ?thesis
    by (auto simp: resolve_item_def split_beta)
qed (use assms(1) in \<open>auto simp: resolve_item_def\<close>)

lemma process_items_images:
  assumes "process_items E items out wd = (Inr out', wd')"
  shows "(list_all truthy out \<longrightarrow> list_all truthy out')
         \<and> length out' \<le> length out + length items
         \<and> (list_all string_valued items \<and> list_all is_str out \<longrightarrow> list_all is_str out')"
  using assms
proof (induction items arbitrary: out wd)
  case Nil
  then show ?case by simp
next
  case (Cons it rest)
  obtain r wd1 where step: "resolve_item E it wd = (r, wd1)"
    by (cases "resolve_item E it wd") auto
  show ?case
  proof (cases r)
    case (Inl e)
    with Cons.prems step show ?thesis by simp
  next
    case (Inr processed_url)
    let ?out = "if truthy processed_url then out @ [processed_url] else out"
    from Cons.prems step Inr have rest: "process_items E rest ?out wd1 = (Inr out', wd')"
      by simp
    note ih = Cons.IH [OF rest]
    have t: "list_all truthy out \<longrightarrow> list_all truthy ?out"
      by simp
    have l: "length ?out \<le> length out + 1"
      by simp
    have s: "string_valued it \<and> list_all is_str out \<longrightarrow> list_all is_str ?out"
      using resolve_item_string [of E it wd processed_url wd1] step Inr by auto
    from ih t l s show ?thesis by auto
  qed
qed

lemma emit_all_count:
  assumes "emit_all E a aat urls idx n wd = (Inr m, wd')"
  shows "m \<le> n + length urls"
  using assms
proof (induction urls arbitrary: idx n wd)
  case Nil
  then show ?case by simp
next
  case (Cons url rest)
  obtain r wd1 where step:
    "emit_image E (prompt a) aat url (Some (width a)) (Some (height a))
       (''imagen_generada_'' @ show_nat (idx + 1)) (int idx + 1) wd = (r, wd1)"
    by (cases "emit_image E (prompt a) aat url (Some (width a)) (Some (height a))
                 (''imagen_generada_'' @ show_nat (idx + 1)) (int idx + 1) wd") auto
  show ?case
  proof (cases r)
    case (Inl e)
    with Cons.prems step show ?thesis by simp
  next
    case (Inr ok)
    with Cons.prems step
    have "emit_all E a aat rest (idx + 1) (if ok then n + 1 else n) wd1 = (Inr m, wd')"
      by simp
    from Cons.IH [OF this] show ?thesis by (simp split: if_splits)
  qed
qed

lemma string_descriptor_dropped:
  assumes "fs E s = Inr (Some (RegularFile file_size content))"
    and "fst (path_to_data_uri E s wd) = []"
  shows "process_items E [PStr s] out wd = (Inr out, snd (path_to_data_uri E s wd))"
  using assms by (simp add: resolve_item_def path_or_url_def split_beta)

text \<open>
  C10 (as amended).  In every success result each element of \<open>images\<close> is truthy (not
  empty), \<open>total_processed\<close> is the length of \<open>images\<close>, and \<open>images_emitted\<close> is at most
  \<open>total_processed\<close>.  The invocation made one call of the collaborator; there are at
  most as many images as descriptors in its answer, and when every descriptor is string
  valued, each image is a non-empty string.  A string descriptor naming a regular file
  that the materializer rejects is dropped.
\<close>

theorem C10_success_images:
  assumes "generate_image E a wd = (Inr r, wd')" and "success r"
  shows "list_all truthy (images r)
         \<and> total_processed r = length (images r)
         \<and> images_emitted r \<le> total_processed r
         \<and> (\<exists>cur frm u resp.
               generation_calls wd' = generation_calls wd @ [(cur, frm, u)]
               \<and> fst (image_generations E cur frm u) = Inr resp
               \<and> length (images r) \<le> length (raw_items resp)
               \<and> (list_all string_valued (raw_items resp)
                    \<longrightarrow> list_all (\<lambda>x. is_str x \<and> x \<noteq> PStr []) (images r)))
         \<and> (\<forall>s file_size content out w0.
               fs E s = Inr (Some (RegularFile file_size content))
               \<and> fst (path_to_data_uri E s w0) = []
               \<longrightarrow> process_items E [PStr s] out w0 = (Inr out, snd (path_to_data_uri E s w0)))"
proof (cases "entry_check a")
  case (Inl e)
  with assms(1) show ?thesis by (simp add: generate_image_raises)
next
  case (Inr uv)
  let ?ss = "read_show_status uv"
  let ?aat = "read_auto_alt_text uv"
  let ?wd = "entry_state E a uv wd"
  have r: "fst (try_except E a ?ss ?aat ?wd) = r"
    using generate_image_result(1) [OF Inr, of E wd] assms(1) by simp
  with assms(2) try_except_success [of E a ?ss ?aat ?wd]
  have body: "fst (try_body E a ?ss ?aat ?wd) = Inr r" by simp
  from try_body_returns [OF body] obtain imgs images_out wd1 n wd2 where b:
      "images_module E = None"
      "fst (call_generation E a ?ss ?wd) = Inr imgs"
      "process_items E (raw_items imgs) [] (snd (call_generation E a ?ss ?wd))
         = (Inr images_out, wd1)"
      "emit_all E a ?aat images_out 0 0 wd1 = (Inr n, wd2)"
      "r = success_result E ?ss ?aat imgs images_out n"
    by blast
  let ?call = "(IMAGE_STEPS ?wd,
         if form_accepts E (build_payload a) then GenerateImageForm (build_payload a)
         else PayloadDict (build_payload a),
         lookup_user E (user a))"
  have calls: "generation_calls wd' = generation_calls wd @ [?call]"
    using generate_image_result(2) [OF Inr, of E wd] assms(1) b(1)
      try_body_calls [of E a ?ss ?aat ?wd]
    by (simp add: entry_state_calls)
  have answer: "fst (image_generations E (fst ?call) (fst (snd ?call)) (snd (snd ?call)))
                  = Inr imgs"
    using call_generation_calls [of E a ?ss ?wd] b(2) by simp
  from process_items_images [OF b(3)]
  have p: "list_all truthy images_out"
      "length images_out \<le> length (raw_items imgs)"
      "list_all string_valued (raw_items imgs) \<longrightarrow> list_all is_str images_out"
    by simp_all
  have strings: "list_all string_valued (raw_items imgs)
                   \<longrightarrow> list_all (\<lambda>x. is_str x \<and> x \<noteq> PStr []) images_out"
    using p(1,3) by (auto simp: list_all_iff)
  from emit_all_count [OF b(4)] have n: "n \<le> length images_out" by simp
  have fields: "images r = images_out" "total_processed r = length images_out"
      "images_emitted r = n"
    using b(5) by (simp_all add: success_result_def)
  have made: "\<exists>cur frm u resp.
               generation_calls wd' = generation_calls wd @ [(cur, frm, u)]
               \<and> fst (image_generations E cur frm u) = Inr resp
               \<and> length (images r) \<le> length (raw_items resp)
               \<and> (list_all string_valued (raw_items resp)
                    \<longrightarrow> list_all (\<lambda>x. is_str x \<and> x \<noteq> PStr []) (images r))"
    using calls answer p(2) strings fields(1)
    by (intro exI [of _ "fst ?call"] exI [of _ "fst (snd ?call)"] exI [of _ "snd (snd ?call)"]
        exI [of _ imgs]) simp
  have dropped: "\<forall>s file_size content out w0.
               fs E s = Inr (Some (RegularFile file_size content))
               \<and> fst (path_to_data_uri E s w0) = []
               \<longrightarrow> process_items E [PStr s] out w0 = (Inr out, snd (path_to_data_uri E s w0))"
    using string_descriptor_dropped by blast
  from p(1) n fields made dropped show ?thesis by simp
qed
lemmas entry_point_defs =
  generate_image_def user_valves_of_def read_show_status_def read_auto_alt_text_def
  get_valve_def emit_status_def send_event_def override_steps_def restore_steps_def
  try_except_def try_body_def call_generation_def handle_response_def raw_items_def
  lookup_user_def success_result_def success_def on_exception_def alt_text_def

lemmas pipeline_defs =
  resolve_item_def path_or_url_def path_to_data_uri_def priority_fields_def emit_image_def
  method_order_def run_method_def emit_image_direct_def emit_image_markdown_def
  emit_image_html_def

theorem C10_success_images_witness:
  "(case fst (generate_image
               (example_env default_valves [(''/tmp/notes.txt'', RegularFile 5 (Inr []))]
                  (Some (\<lambda>calls ev. True))
                  (Inr (PList [PStr ''/tmp/notes.txt'',
                               PDict [(''url'', PStr ''https://example.com/x.png'')]])) [])
               (example_args PNone) (example_world None)) of
      Inl e \<Rightarrow> False
    | Inr r \<Rightarrow> success r \<and> images r = [PStr ''https://example.com/x.png'']
               \<and> total_processed r = 1 \<and> images_emitted r \<le> 1)
   \<and> list_all string_valued
        (raw_items (PList [PStr ''/tmp/notes.txt'',
                           PDict [(''url'', PStr ''https://example.com/x.png'')]]))
   \<and> process_items
        (example_env default_valves [(''/tmp/notes.txt'', RegularFile 5 (Inr []))]
           (Some (\<lambda>calls ev. True))
           (Inr (PList [PStr ''/tmp/notes.txt'',
                        PDict [(''url'', PStr ''https://example.com/x.png'')]])) [])
        [PStr ''/tmp/notes.txt''] [] (example_world None)
      = (Inr [], example_world None)"
proof -
  let ?resp = "PList [PStr ''/tmp/notes.txt'',
                      PDict [(''url'', PStr ''https://example.com/x.png'')]]"
  let ?E = "example_env default_valves [(''/tmp/notes.txt'', RegularFile 5 (Inr []))]
              (Some (\<lambda>calls ev. True)) (Inr ?resp) []"
  let ?run = "generate_image ?E (example_args PNone) (example_world None)"
  have arg: "user (example_args PNone) = PNone" "prompt (example_args PNone) = PStr ''a red cat''"
    by (simp_all add: example_args_def)
  have rejected: "path_to_data_uri ?E ''/tmp/notes.txt'' (example_world None)
                    = ([], example_world None)"
    by (simp add: path_to_data_uri_def example_defs string_defs)
  have regular: "fs ?E ''/tmp/notes.txt'' = Inr (Some (RegularFile 5 (Inr [])))"
    by (simp add: example_defs)
  have items: "process_items ?E (raw_items ?resp) [] (example_world None)
                 = (Inr [PStr ''https://example.com/x.png''], example_world None)"
    by (simp add: raw_items_def resolve_item_def path_or_url_def path_to_data_uri_def
        priority_fields_def example_defs string_defs)
  have valued: "list_all string_valued (raw_items ?resp)"
    by (simp add: raw_items_def string_valued_def path_fields_def)
  obtain r where r: "fst ?run = Inr r"
    using entry_check_ok [of "example_args PNone"]
      generate_image_result(1) [of "example_args PNone" _ ?E "example_world None"] arg
    by auto
  have images_r: "images r = [PStr ''https://example.com/x.png''] \<and> success r"
  proof -
    have "fst ?run = Inr r \<longrightarrow> images r = [PStr ''https://example.com/x.png''] \<and> success r"
      by (auto simp add: arg entry_point_defs pipeline_defs Let_def example_env_def
          example_world_def default_valves_def table_fs_def string_defs)
    with r show ?thesis by simp
  qed
  have run: "?run = (Inr r, snd ?run)"
    using r by (simp add: prod_eq_iff)
  from C10_success_images [OF run] images_r valued regular rejected
  have "total_processed r = 1" "images_emitted r \<le> 1"
    "process_items ?E [PStr ''/tmp/notes.txt''] [] (example_world None)
       = (Inr [], example_world None)"
    by (simp_all del: process_items.simps)
  with r images_r valued show ?thesis by simp
qed

text \<open>
  The claim as first stated has every image a string and every failed
  materialization dropped.  A mapping whose \<open>url\<close> is a list keeps the list as its image
  (\<open>Path\<close> raises, the handler keeps the value, and a list has a length).  A mapping whose
  \<open>url\<close> names a regular file that the materializer rejects is not dropped: its image
  is the serialized mapping.
\<close>

theorem C10_images_counterexample:
  "(case fst (generate_image
               (example_env default_valves [] (Some (\<lambda>calls ev. True))
                  (Inr (PList [PDict [(''url'', PList [PInt 1])]])) [])
               (example_args PNone) (example_world None)) of
      Inl e \<Rightarrow> False
    | Inr r \<Rightarrow> success r \<and> images r = [PList [PInt 1]] \<and> \<not> is_str (PList [PInt 1]))
   \<and> fst (path_to_data_uri
            (example_env default_valves [(''/tmp/notes.txt'', RegularFile 5 (Inr []))]
               (Some (\<lambda>calls ev. True))
               (Inr (PList [PDict [(''url'', PStr ''/tmp/notes.txt'')]]))
               [(PDict [(''url'', PStr ''/tmp/notes.txt'')],
                 ''{'' @ dq @ ''url'' @ dq @ '': '' @ dq @ ''/tmp/notes.txt'' @ dq @ ''}'')])
            ''/tmp/notes.txt'' (example_world None)) = []
   \<and> (case fst (generate_image
               (example_env default_valves [(''/tmp/notes.txt'', RegularFile 5 (Inr []))]
                  (Some (\<lambda>calls ev. True))
                  (Inr (PList [PDict [(''url'', PStr ''/tmp/notes.txt'')]]))
                  [(PDict [(''url'', PStr ''/tmp/notes.txt'')],
                    ''{'' @ dq @ ''url'' @ dq @ '': '' @ dq @ ''/tmp/notes.txt'' @ dq @ ''}'')])
               (example_args PNone) (example_world None)) of
      Inl e \<Rightarrow> False
    | Inr r \<Rightarrow> success r \<and> total_processed r = 1
               \<and> images r
                   = [PStr (''{'' @ dq @ ''url'' @ dq @ '': '' @ dq @ ''/tmp/notes.txt'' @ dq @ ''}'')])"
proof -
  have arg: "user (example_args PNone) = PNone" "prompt (example_args PNone) = PStr ''a red cat''"
    by (simp_all add: example_args_def)
  show ?thesis
    by (simp add: arg entry_point_defs pipeline_defs Let_def example_env_def example_world_def
        default_valves_def table_fs_def table_dumps_def string_defs)
qed

subsection \<open>Exceptions that leave the entry point\<close>

lemma try_except_shape:
  "(\<exists>imgs n t rw cfg. fst (try_except E a ss aat wd) = Success imgs n t rw ''internal'' cfg)
   \<or> (\<exists>msg tr cfg. fst (try_except E a ss aat wd) = Failure (''Error interno: '' @ msg) tr cfg)"
proof -
  obtain b wd1 where b: "try_body E a ss aat wd = (b, wd1)"
    by (cases "try_body E a ss aat wd") auto
  show ?thesis
  proof (cases b)
    case (Inl e)
    with b have "fst (try_except E a ss aat wd) = fst (on_exception E ss e wd1)"
      by (simp add: try_except_def)
    then show ?thesis
      by (simp add: on_exception_def)
  next
    case (Inr r)
    with b have body: "fst (try_body E a ss aat wd) = Inr r" by simp
    from try_body_returns [OF body] obtain imgs images_out n
      where "r = success_result E ss aat imgs images_out n" by blast
    moreover from b Inr have "fst (try_except E a ss aat wd) = r"
      by (simp add: try_except_def)
    ultimately show ?thesis
      by (simp add: success_result_def)
  qed
qed

text \<open>
  C1 (as amended).  When \<open>prompt\<close> is a string (or a list, which can be sliced and
  measured as well) and \<open>__user__\<close> is \<open>None\<close>, another falsy value or a mapping, then
  whatever the host setting, the emitter, the file system and the collaborators do,
  within the exceptions that \<open>except Exception\<close> catches, the call returns a dict of the
  success shape or of the failure shape.
\<close>

theorem C1_no_exception_leaves:
  assumes "\<not> truthy (user a) \<or> (\<exists>d. user a = PDict d)"
    and "is_str (prompt a) \<or> (\<exists>xs. prompt a = PList xs)"
  shows "\<exists>r. fst (generate_image E a wd) = Inr r
              \<and> ((\<exists>imgs n t rw cfg. r = Success imgs n t rw ''internal'' cfg)
                   \<or> (\<exists>msg tr cfg. r = Failure (''Error interno: '' @ msg) tr cfg))"
proof -
  from entry_check_ok [OF assms] obtain uv where uv: "entry_check a = Inr uv"
    by blast
  from generate_image_result(1) [OF uv, of E wd]
    try_except_shape [of E a "read_show_status uv" "read_auto_alt_text uv"
      "entry_state E a uv wd"]
  show ?thesis by auto
qed

theorem C1_no_exception_leaves_witness:
  "(\<exists>d. user (example_args (PDict [(''id'', PStr ''u1'')])) = PDict d)
   \<and> is_str (prompt (example_args (PDict [(''id'', PStr ''u1'')])))
   \<and> (\<exists>msg tr cfg.
         fst (generate_image
                (example_env default_valves [] None
                   (Inl (PyExn ''RuntimeError'' ''ComfyUI is down'')) [])
                (example_args (PDict [(''id'', PStr ''u1'')])) (example_world None))
           = Inr (Failure (''Error interno: '' @ msg) tr cfg))"
proof -
  let ?E = "example_env default_valves [] None (Inl (PyExn ''RuntimeError'' ''ComfyUI is down'')) []"
  let ?a = "example_args (PDict [(''id'', PStr ''u1'')])"
  let ?run = "generate_image ?E ?a (example_world None)"
  have arg: "user ?a = PDict [(''id'', PStr ''u1'')]" "prompt ?a = PStr ''a red cat''"
    by (simp_all add: example_args_def)
  then have mapping: "\<not> truthy (user ?a) \<or> (\<exists>d. user ?a = PDict d)"
    and str_prompt: "is_str (prompt ?a) \<or> (\<exists>xs. prompt ?a = PList xs)"
    by simp_all
  from C1_no_exception_leaves [OF mapping str_prompt, of ?E "example_world None"]
  obtain r where r: "fst ?run = Inr r"
      "(\<exists>imgs n t rw cfg. r = Success imgs n t rw ''internal'' cfg)
       \<or> (\<exists>msg tr cfg. r = Failure (''Error interno: '' @ msg) tr cfg)"
    by blast
  have "\<not> success r"
  proof -
    have "fst ?run = Inr r \<longrightarrow> \<not> success r"
      by (auto simp add: arg entry_point_defs Let_def example_env_def example_world_def
          default_valves_def)
    with r(1) show ?thesis by simp
  qed
  with r(2) have "\<exists>msg tr cfg. r = Failure (''Error interno: '' @ msg) tr cfg"
    by (auto simp: success_def)
  with r(1) arg show ?thesis by auto
qed

text \<open>
  The claim as first stated takes any argument values.  For an integer \<open>__user__\<close> the
  test \<open>"valves" in __user__\<close> of line 121 raises \<open>TypeError\<close>; for \<open>prompt = None\<close>, with
  \<open>__user__ = None\<close>, the log line 167 raises \<open>TypeError\<close> when it slices the prompt.
  Both run before the first \<open>try\<close>, and the exception leaves the call.
\<close>

theorem C1_argument_counterexample:
  "generate_image (example_env default_valves [] None (Inr PNone) []) (example_args (PInt 5))
     (example_world None)
   = (Inl (PyExn ''TypeError'' ''argument is not iterable''), example_world None)
   \<and> user ((example_args PNone)\<lparr>prompt := PNone\<rparr>) = PNone
   \<and> generate_image (example_env default_valves [] None (Inr PNone) [])
       ((example_args PNone)\<lparr>prompt := PNone\<rparr>) (example_world None)
     = (Inl (PyExn ''TypeError'' ''object is not subscriptable''), example_world None)"
proof -
  have "user (example_args (PInt 5)) = PInt 5"
    and "user ((example_args PNone)\<lparr>prompt := PNone\<rparr>) = PNone"
    and "prompt ((example_args PNone)\<lparr>prompt := PNone\<rparr>) = PNone"
    by (simp_all add: example_args_def)
  then show ?thesis
    by (simp add: generate_image_def user_valves_of_def)
qed

end
